theory Spec2Isabelle
  imports Main "HOL-Library.Word"
begin

section \<open>JavaScript strings and values\<close>

text \<open>
  A JavaScript string is a sequence of 16-bit code units.  ASCII literals of the
  source are written \<open>str ''...''\<close>.
\<close>

type_synonym jsstring = "16 word list"

definition str :: "string \<Rightarrow> jsstring" where
  "str s = map (\<lambda>c. of_nat (of_char c)) s"

text \<open>
  The values \<open>JSON.parse\<close> produces, and that \<open>parseSSELine\<close> hands to an adapter.
  A number is kept as its lexeme.  \<open>JNull\<close> is JavaScript's \<open>null\<close>: the source uses
  it both for a decoded \<open>null\<close> literal and for "no value".
\<close>

datatype json =
    JNull
  | JBool bool
  | JNumber jsstring
  | JString jsstring
  | JArray "json list"
  | JObject "(jsstring \<times> json) list"

section \<open>utils/streaming.ts: the guarded decoder\<close>

definition DEFAULT_MAX_JSON_SIZE :: int where
  "DEFAULT_MAX_JSON_SIZE = 1024 * 1024"

definition DEFAULT_MAX_JSON_DEPTH :: int where
  "DEFAULT_MAX_JSON_DEPTH = 100"

text \<open>
  \<open>new Blob([jsonString]).size\<close>: the length of the UTF-8 encoding of the string.
  A code unit below \<open>0x80\<close> takes one byte, one below \<open>0x800\<close> two, a surrogate
  pair four; every other code unit (an unpaired surrogate is replaced by U+FFFD)
  takes three.
\<close>

definition is_high_surrogate :: "16 word \<Rightarrow> bool" where
  "is_high_surrogate c = (0xD800 \<le> c \<and> c \<le> 0xDBFF)"

definition is_low_surrogate :: "16 word \<Rightarrow> bool" where
  "is_low_surrogate c = (0xDC00 \<le> c \<and> c \<le> 0xDFFF)"

fun blob_size :: "jsstring \<Rightarrow> nat" where
  "blob_size [] = 0"
| "blob_size [c] = (if c < 0x80 then 1 else if c < 0x800 then 2 else 3)"
| "blob_size (c # d # cs) =
     (if c < 0x80 then 1 + blob_size (d # cs)
      else if c < 0x800 then 2 + blob_size (d # cs)
      else if is_high_surrogate c \<and> is_low_surrogate d then 4 + blob_size cs
      else 3 + blob_size (d # cs))"

definition checkJsonSize :: "jsstring \<Rightarrow> int \<Rightarrow> bool" where
  "checkJsonSize jsonString maxSize = (int (blob_size jsonString) \<le> maxSize)"

text \<open>
  \<open>checkJsonDepth\<close> calls itself for every element, one call inside the other, on
  the engine's call stack.  \<open>stack\<close> is the number of nested calls of
  \<open>checkJsonDepth\<close> the stack has room for where \<open>safeJsonParse\<close> runs; a call with
  no room left throws a RangeError, the result \<open>None\<close>.

  Each of the two \<open>for\<close> loops returns \<open>false\<close> at the first element whose check
  returns \<open>false\<close>, and is left by the exception at the first element whose check
  throws.
\<close>

fun for_each_check :: "('a \<Rightarrow> bool option) \<Rightarrow> 'a list \<Rightarrow> bool option" where
  "for_each_check check [] = Some True"
| "for_each_check check (x # xs) =
     (case check x of
        None \<Rightarrow> None
      | Some ok \<Rightarrow> if \<not> ok then Some False else for_each_check check xs)"

fun checkJsonDepth :: "nat \<Rightarrow> json \<Rightarrow> int \<Rightarrow> int \<Rightarrow> bool option" where
  "checkJsonDepth 0 obj maxDepth currentDepth = None"
| "checkJsonDepth (Suc stack) obj maxDepth currentDepth =
     (if currentDepth > maxDepth then Some False
      else (case obj of
              JArray items \<Rightarrow>
                for_each_check (\<lambda>item. checkJsonDepth stack item maxDepth (currentDepth + 1)) items
            | JObject members \<Rightarrow>
                for_each_check
                  (\<lambda>member. checkJsonDepth stack (snd member) maxDepth (currentDepth + 1)) members
            | _ \<Rightarrow> Some True))"

text \<open>
  \<open>safeJsonParse\<close>.  \<open>JSON.parse\<close> is a builtin of the platform, not code of the
  repository: it is the parameter \<open>parse\<close>, with \<open>None\<close> for a thrown exception.
  The \<open>catch\<close> turns an exception of \<open>JSON.parse\<close> and the RangeError of the depth
  walk into \<open>null\<close>.
\<close>

definition safeJsonParse ::
  "(jsstring \<Rightarrow> json option) \<Rightarrow> nat \<Rightarrow> jsstring \<Rightarrow> int \<Rightarrow> int \<Rightarrow> json" where
  "safeJsonParse parse stack jsonString maxSize maxDepth =
     (if \<not> checkJsonSize jsonString maxSize then JNull
      else (case parse jsonString of
              None \<Rightarrow> JNull
            | Some parsed \<Rightarrow>
                (case checkJsonDepth stack parsed maxDepth 0 of
                   None \<Rightarrow> JNull
                 | Some ok \<Rightarrow> if \<not> ok then JNull else parsed)))"

section \<open>utils/streaming.ts: the event-stream frame parser\<close>

record ISSEParserOptions =
  dataField :: "jsstring option"
  parseJson :: "bool option"
  maxJsonSize :: "int option"
  maxJsonDepth :: "int option"

text \<open>The empty options object \<open>{}\<close>, the default of the \<open>options\<close> parameter.\<close>

definition no_options :: ISSEParserOptions where
  "no_options = \<lparr>dataField = None, parseJson = None, maxJsonSize = None, maxJsonDepth = None\<rparr>"

text \<open>
  The functions of this file that reach \<open>safeJsonParse\<close> take \<open>parse\<close> and \<open>stack\<close>
  and pass them on.

  \<open>String.prototype.trim\<close> removes the code units of ECMAScript's WhiteSpace and
  LineTerminator productions from both ends.
\<close>

definition is_js_whitespace :: "16 word \<Rightarrow> bool" where
  "is_js_whitespace c =
     (c \<in> set [0x0009, 0x000A, 0x000B, 0x000C, 0x000D, 0x0020, 0x00A0, 0x1680,
                0x2000, 0x2001, 0x2002, 0x2003, 0x2004, 0x2005, 0x2006, 0x2007,
                0x2008, 0x2009, 0x200A, 0x2028, 0x2029, 0x202F, 0x205F, 0x3000, 0xFEFF])"

definition trim :: "jsstring \<Rightarrow> jsstring" where
  "trim s = rev (dropWhile is_js_whitespace (rev (dropWhile is_js_whitespace s)))"

definition startsWith :: "jsstring \<Rightarrow> jsstring \<Rightarrow> bool" where
  "startsWith s p = (take (length p) s = p)"

definition parseSSELine ::
  "(jsstring \<Rightarrow> json option) \<Rightarrow> nat \<Rightarrow> jsstring \<Rightarrow> ISSEParserOptions \<Rightarrow> json" where
  "parseSSELine parse stack line options =
     (let dataField' = (case dataField options of None \<Rightarrow> str ''data'' | Some d \<Rightarrow> d);
          parseJson' = (case parseJson options of None \<Rightarrow> True | Some b \<Rightarrow> b);
          maxJsonSize' = (case maxJsonSize options of None \<Rightarrow> DEFAULT_MAX_JSON_SIZE | Some n \<Rightarrow> n);
          maxJsonDepth' = (case maxJsonDepth options of None \<Rightarrow> DEFAULT_MAX_JSON_DEPTH | Some n \<Rightarrow> n);
          trimmed = trim line
      in if trimmed = [] then JNull
         else if startsWith trimmed (str '':'') then JNull
         else
           let prefix = dataField' @ str '':'' in
           if \<not> startsWith trimmed prefix then JNull
           else
             let content = trim (drop (length prefix) trimmed) in
             if content = str ''[DONE]'' then JNull
             else if parseJson' then
               (let parsed = safeJsonParse parse stack content maxJsonSize' maxJsonDepth' in
                if parsed = JNull \<and> content \<noteq> [] then JString content else parsed)
             else JString content)"

text \<open>
  Names for three values of \<open>parseSSELine\<close>, used to state its properties: the
  prefix it looks for, the trimmed text after the prefix, and what the guarded
  decoder makes of that text under the configured limits.
\<close>

definition field_prefix :: "ISSEParserOptions \<Rightarrow> jsstring" where
  "field_prefix options = (case dataField options of None \<Rightarrow> str ''data'' | Some d \<Rightarrow> d) @ str '':''"

definition payload_of :: "jsstring \<Rightarrow> ISSEParserOptions \<Rightarrow> jsstring" where
  "payload_of line options = trim (drop (length (field_prefix options)) (trim line))"

definition decoded_payload ::
  "(jsstring \<Rightarrow> json option) \<Rightarrow> nat \<Rightarrow> jsstring \<Rightarrow> ISSEParserOptions \<Rightarrow> json" where
  "decoded_payload parse stack line options =
     safeJsonParse parse stack (payload_of line options)
       (case maxJsonSize options of None \<Rightarrow> DEFAULT_MAX_JSON_SIZE | Some n \<Rightarrow> n)
       (case maxJsonDepth options of None \<Rightarrow> DEFAULT_MAX_JSON_DEPTH | Some n \<Rightarrow> n)"

section \<open>utils/streaming.ts: the incremental line splitter\<close>

text \<open>\<open>buffer.split('\n')\<close>: the pieces between line-feed code units; never empty.\<close>

fun split_lf :: "jsstring \<Rightarrow> jsstring list" where
  "split_lf [] = [[]]"
| "split_lf (c # cs) =
     (if c = 0x0A then [] # split_lf cs
      else (case split_lf cs of
              [] \<Rightarrow> [[c]]
            | l # ls \<Rightarrow> (c # l) # ls))"

text \<open>
  The object \<open>createSSEParser\<close> returns closes over \<open>buffer\<close>.  The state also
  records what the parser did: \<open>processed\<close>, the lines handed to \<open>parseSSELine\<close>, and
  \<open>delivered\<close>, the arguments of the calls of \<open>options.onData\<close>, both in order.
\<close>

record sse_parser =
  buffer :: jsstring
  processed :: "jsstring list"
  delivered :: "json list"

definition createSSEParser :: sse_parser where
  "createSSEParser = \<lparr>buffer = [], processed = [], delivered = []\<rparr>"

definition feed ::
  "(jsstring \<Rightarrow> json option) \<Rightarrow> nat \<Rightarrow> ISSEParserOptions \<Rightarrow> sse_parser \<Rightarrow> jsstring \<Rightarrow> sse_parser" where
  "feed parse stack parserOptions p chunk =
     (let lines = split_lf (buffer p @ chunk) in
      \<lparr>buffer = last lines,
       processed = processed p @ butlast lines,
       delivered = delivered p @
         filter (\<lambda>data. data \<noteq> JNull) (map (\<lambda>line. parseSSELine parse stack line parserOptions) (butlast lines))\<rparr>)"

definition reset :: "sse_parser \<Rightarrow> sse_parser" where
  "reset p = p\<lparr>buffer := []\<rparr>"

text \<open>Feeding a sequence of chunks one by one.\<close>

definition feed_all ::
  "(jsstring \<Rightarrow> json option) \<Rightarrow> nat \<Rightarrow> ISSEParserOptions \<Rightarrow> sse_parser \<Rightarrow> jsstring list
     \<Rightarrow> sse_parser" where
  "feed_all parse stack parserOptions p chunks = foldl (feed parse stack parserOptions) p chunks"

text \<open>The part of a string after its last line feed (the whole string when it has none).\<close>

definition after_last_lf :: "jsstring \<Rightarrow> jsstring" where
  "after_last_lf s = rev (takeWhile (\<lambda>c. c \<noteq> 0x0A) (rev s))"

section \<open>The platform's \<open>JSON.parse\<close>\<close>

text \<open>
  The functions above take \<open>JSON.parse\<close> as a parameter.  \<open>JSON_parse\<close> is a model
  of the builtin after the JSON grammar (ECMA-404), used where a statement is about
  concrete text: insignificant whitespace is space, tab, line feed and carriage
  return; a number keeps its lexeme; a repeated key keeps its last value.
  \<open>None\<close> stands for the SyntaxError the builtin throws.
\<close>

definition is_json_ws :: "16 word \<Rightarrow> bool" where
  "is_json_ws c = (c \<in> set [0x20, 0x09, 0x0A, 0x0D])"

definition skip_ws :: "jsstring \<Rightarrow> jsstring" where
  "skip_ws s = dropWhile is_json_ws s"

definition is_digit :: "16 word \<Rightarrow> bool" where
  "is_digit c = (0x30 \<le> c \<and> c \<le> 0x39)"

definition hex_value :: "16 word \<Rightarrow> 16 word option" where
  "hex_value c =
     (if 0x30 \<le> c \<and> c \<le> 0x39 then Some (c - 0x30)
      else if 0x41 \<le> c \<and> c \<le> 0x46 then Some (c - 0x41 + 10)
      else if 0x61 \<le> c \<and> c \<le> 0x66 then Some (c - 0x61 + 10)
      else None)"

definition hex4 :: "16 word \<Rightarrow> 16 word \<Rightarrow> 16 word \<Rightarrow> 16 word \<Rightarrow> 16 word option" where
  "hex4 a b c d =
     (case (hex_value a, hex_value b, hex_value c, hex_value d) of
        (Some w, Some x, Some y, Some z) \<Rightarrow> Some (((w * 16 + x) * 16 + y) * 16 + z)
      | _ \<Rightarrow> None)"

definition escape_char :: "16 word \<Rightarrow> 16 word option" where
  "escape_char e =
     (if e = 0x22 then Some 0x22
      else if e = 0x5C then Some 0x5C
      else if e = 0x2F then Some 0x2F
      else if e = 0x62 then Some 0x08
      else if e = 0x66 then Some 0x0C
      else if e = 0x6E then Some 0x0A
      else if e = 0x72 then Some 0x0D
      else if e = 0x74 then Some 0x09
      else None)"

definition cons_result :: "16 word \<Rightarrow> (jsstring \<times> jsstring) option \<Rightarrow> (jsstring \<times> jsstring) option" where
  "cons_result c r = (case r of None \<Rightarrow> None | Some (s, rest) \<Rightarrow> Some (c # s, rest))"

text \<open>The characters of a string after its opening quote, up to the closing one.\<close>

fun parse_string_body :: "jsstring \<Rightarrow> (jsstring \<times> jsstring) option" where
  "parse_string_body [] = None"
| "parse_string_body (c # cs) =
     (if c = 0x22 then Some ([], cs)
      else if c = 0x5C then
        (case cs of
           [] \<Rightarrow> None
         | e # r \<Rightarrow>
             if e = 0x75 then
               (case r of
                  h1 # h2 # h3 # h4 # r' \<Rightarrow>
                    (case hex4 h1 h2 h3 h4 of
                       None \<Rightarrow> None
                     | Some u \<Rightarrow> cons_result u (parse_string_body r'))
                | _ \<Rightarrow> None)
             else
               (case escape_char e of
                  None \<Rightarrow> None
                | Some x \<Rightarrow> cons_result x (parse_string_body r)))
      else if c < 0x20 then None
      else cons_result c (parse_string_body cs))"

text \<open>A number: \<open>-? (0 | [1-9][0-9]*) (. [0-9]+)? ([eE] [+-]? [0-9]+)?\<close>.\<close>

definition parse_digits :: "jsstring \<Rightarrow> (jsstring \<times> jsstring) option" where
  "parse_digits s =
     (if takeWhile is_digit s = [] then None
      else Some (takeWhile is_digit s, dropWhile is_digit s))"

definition parse_int_part :: "jsstring \<Rightarrow> (jsstring \<times> jsstring) option" where
  "parse_int_part s =
     (case s of
        [] \<Rightarrow> None
      | c # cs \<Rightarrow> if c = 0x30 then Some ([c], cs) else parse_digits s)"

definition parse_frac_part :: "jsstring \<Rightarrow> (jsstring \<times> jsstring) option" where
  "parse_frac_part s =
     (case s of
        [] \<Rightarrow> Some ([], s)
      | c # cs \<Rightarrow> if c = 0x2E then cons_result c (parse_digits cs) else Some ([], s))"

definition parse_exp_part :: "jsstring \<Rightarrow> (jsstring \<times> jsstring) option" where
  "parse_exp_part s =
     (case s of
        [] \<Rightarrow> Some ([], s)
      | c # cs \<Rightarrow>
          if c = 0x65 \<or> c = 0x45 then
            (case cs of
               [] \<Rightarrow> None
             | g # gs \<Rightarrow>
                 if g = 0x2B \<or> g = 0x2D then cons_result c (cons_result g (parse_digits gs))
                 else cons_result c (parse_digits cs))
          else Some ([], s))"

definition parse_number :: "jsstring \<Rightarrow> (jsstring \<times> jsstring) option" where
  "parse_number s =
     (let sign = takeWhile (\<lambda>c. c = 0x2D) (take 1 s) in
      case parse_int_part (drop (length sign) s) of
        None \<Rightarrow> None
      | Some (i, r1) \<Rightarrow>
          (case parse_frac_part r1 of
             None \<Rightarrow> None
           | Some (f, r2) \<Rightarrow>
               (case parse_exp_part r2 of
                  None \<Rightarrow> None
                | Some (e, r3) \<Rightarrow> Some (sign @ i @ f @ e, r3))))"

text \<open>Storing a member: a repeated key keeps its place and takes the new value.\<close>

fun set_member :: "jsstring \<Rightarrow> json \<Rightarrow> (jsstring \<times> json) list \<Rightarrow> (jsstring \<times> json) list" where
  "set_member k v [] = [(k, v)]"
| "set_member k v (m # ms) = (if fst m = k then (k, v) # ms else m # set_member k v ms)"

text \<open>
  Recursive descent.  The first argument bounds the number of nested calls;
  \<open>JSON_parse\<close> starts with twice the length of the text plus two: of any two
  calls nested one in the other, the outer consumes a character of the text.
\<close>

fun parse_value :: "nat \<Rightarrow> jsstring \<Rightarrow> (json \<times> jsstring) option"
  and parse_elements :: "nat \<Rightarrow> json list \<Rightarrow> jsstring \<Rightarrow> (json \<times> jsstring) option"
  and parse_members :: "nat \<Rightarrow> (jsstring \<times> json) list \<Rightarrow> jsstring \<Rightarrow> (json \<times> jsstring) option"
where
  "parse_value 0 s = None"
| "parse_value (Suc n) s =
     (case skip_ws s of
        [] \<Rightarrow> None
      | c # cs \<Rightarrow>
          if c = 0x5B then
            (case skip_ws cs of
               [] \<Rightarrow> None
             | d # ds \<Rightarrow> if d = 0x5D then Some (JArray [], ds) else parse_elements n [] cs)
          else if c = 0x7B then
            (case skip_ws cs of
               [] \<Rightarrow> None
             | d # ds \<Rightarrow> if d = 0x7D then Some (JObject [], ds) else parse_members n [] cs)
          else if c = 0x22 then
            (case parse_string_body cs of
               None \<Rightarrow> None
             | Some (t, r) \<Rightarrow> Some (JString t, r))
          else if startsWith (c # cs) (str ''true'') then Some (JBool True, drop 4 (c # cs))
          else if startsWith (c # cs) (str ''false'') then Some (JBool False, drop 5 (c # cs))
          else if startsWith (c # cs) (str ''null'') then Some (JNull, drop 4 (c # cs))
          else
            (case parse_number (c # cs) of
               None \<Rightarrow> None
             | Some (t, r) \<Rightarrow> Some (JNumber t, r)))"
| "parse_elements 0 acc s = None"
| "parse_elements (Suc n) acc s =
     (case parse_value n s of
        None \<Rightarrow> None
      | Some (v, r) \<Rightarrow>
          (case skip_ws r of
             [] \<Rightarrow> None
           | c # cs \<Rightarrow>
               if c = 0x2C then parse_elements n (acc @ [v]) cs
               else if c = 0x5D then Some (JArray (acc @ [v]), cs)
               else None))"
| "parse_members 0 acc s = None"
| "parse_members (Suc n) acc s =
     (case skip_ws s of
        [] \<Rightarrow> None
      | q # qs \<Rightarrow>
          if q \<noteq> 0x22 then None
          else
            (case parse_string_body qs of
               None \<Rightarrow> None
             | Some (k, r0) \<Rightarrow>
                 (case skip_ws r0 of
                    [] \<Rightarrow> None
                  | colon # r1 \<Rightarrow>
                      if colon \<noteq> 0x3A then None
                      else
                        (case parse_value n r1 of
                           None \<Rightarrow> None
                         | Some (v, r) \<Rightarrow>
                             (case skip_ws r of
                                [] \<Rightarrow> None
                              | c # cs \<Rightarrow>
                                  if c = 0x2C then parse_members n (set_member k v acc) cs
                                  else if c = 0x7D then Some (JObject (set_member k v acc), cs)
                                  else None)))))"

definition JSON_parse :: "jsstring \<Rightarrow> json option" where
  "JSON_parse text =
     (case parse_value (2 * length text + 2) text of
        None \<Rightarrow> None
      | Some (v, r) \<Rightarrow> if skip_ws r = [] then Some v else None)"

section \<open>Two measures of depth\<close>

fun max_list :: "nat list \<Rightarrow> nat" where
  "max_list [] = 0"
| "max_list (x # xs) = max x (max_list xs)"


text \<open>
  What \<open>checkJsonDepth\<close> compares with the limit and with the room on the stack:
  the largest number of arrays and
  objects around any value of the tree, scalars included.  An array or object with
  no element has none below it, so \<open>[]\<close> measures 0 and \<open>[[]]\<close> measures 1.
\<close>

fun enclosing_levels :: "json \<Rightarrow> nat" where
  "enclosing_levels (JArray items) = max_list (map (\<lambda>item. 1 + enclosing_levels item) items)"
| "enclosing_levels (JObject members) =
     max_list (map (\<lambda>member. 1 + enclosing_levels (snd member)) members)"
| "enclosing_levels v = 0"


section \<open>context: the canonical stream event\<close>

datatype stream_event_type = llm_token | tool_content | tool_start | tool_end | error

text \<open>
  \<open>IStreamEvent\<close>: one object type with a \<open>type\<close> and optional properties; an
  absent property is \<open>None\<close>.  The fields carry the prefix \<open>ev_\<close>.
\<close>

record IStreamEvent =
  ev_type :: stream_event_type
  ev_content :: "jsstring option"
  ev_tool_name :: "jsstring option"
  ev_output :: "jsstring option"
  ev_message :: "jsstring option"
  ev_title :: "jsstring option"
  ev_input :: "jsstring option"

text \<open>An event object with only its \<open>type\<close> set; the adapters' literals add fields to it.\<close>

definition event_of_type :: "stream_event_type \<Rightarrow> IStreamEvent" where
  "event_of_type t =
     \<lparr>ev_type = t, ev_content = None, ev_tool_name = None, ev_output = None,
      ev_message = None, ev_title = None, ev_input = None\<rparr>"

text \<open>
  The argument of an adapter has type \<open>unknown\<close>.  The adapters first return \<open>null\<close>
  unless it is a non-null object, then read it at the provider's interface type.
\<close>

datatype 'a unknown = JsNull | JsPrimitive | JsObject 'a

text \<open>
  A JavaScript \<open>Map\<close> keeps its entries in insertion order: \<open>set\<close> on a present key
  replaces the value in place, on a new key appends an entry.
\<close>

fun Map_set :: "'k \<Rightarrow> 'v \<Rightarrow> ('k \<times> 'v) list \<Rightarrow> ('k \<times> 'v) list" where
  "Map_set k v [] = [(k, v)]"
| "Map_set k v (e # es) = (if fst e = k then (k, v) # es else e # Map_set k v es)"

fun Map_get :: "('k \<times> 'v) list \<Rightarrow> 'k \<Rightarrow> 'v option" where
  "Map_get [] k = None"
| "Map_get (e # es) k = (if fst e = k then Some (snd e) else Map_get es k)"

definition Map_delete :: "'k \<Rightarrow> ('k \<times> 'v) list \<Rightarrow> ('k \<times> 'v) list" where
  "Map_delete k es = filter (\<lambda>e. fst e \<noteq> k) es"

text \<open>The decimal text of an integer, as a template literal \<open>`tool_${index}`\<close> renders it.\<close>

fun dec_nat :: "nat \<Rightarrow> jsstring" where
  "dec_nat n = (if n < 10 then [of_nat (48 + n)] else dec_nat (n div 10) @ [of_nat (48 + n mod 10)])"

declare dec_nat.simps [simp del]

definition dec_int :: "int \<Rightarrow> jsstring" where
  "dec_int i = (if i < 0 then 0x2D # dec_nat (nat (- i)) else dec_nat (nat i))"

section \<open>adapters/openai.ts\<close>

text \<open>
  \<open>IOpenAIStreamChunk\<close>, with the properties the adapter reads.  \<open>None\<close> is an absent
  (or \<open>null\<close>) property; a slot index is an integer.
\<close>

record openai_function =
  fn_name :: "jsstring option"
  fn_arguments :: "jsstring option"

record openai_tool_call =
  tc_index :: "int option"
  tc_id :: "jsstring option"
  tc_function :: "openai_function option"

record openai_delta =
  dl_content :: "jsstring option"
  dl_tool_calls :: "openai_tool_call list option"

record openai_choice =
  ch_delta :: "openai_delta option"
  ch_finish_reason :: "jsstring option"

record IOpenAIStreamChunk =
  choices :: "openai_choice list option"

record IToolCallState =
  tcs_id :: jsstring
  tcs_name :: jsstring
  tcs_arguments :: jsstring

type_synonym openai_state = "(int \<times> IToolCallState) list"

text \<open>
  A string is truthy when it is present and not empty; \<open>the\<close> below is applied
  to a property only where it has been tested truthy.
\<close>

definition truthy :: "jsstring option \<Rightarrow> bool" where
  "truthy s = (case s of None \<Rightarrow> False | Some t \<Rightarrow> t \<noteq> [])"

text \<open>
  The loop \<open>for (const toolCall of delta.tool_calls)\<close>: it returns from the adapter
  at the first entry that has a name, and otherwise goes on to the next entry.
  The result is the event returned from inside the loop, if any, and the map.
\<close>

fun tool_calls_loop :: "openai_tool_call list \<Rightarrow> openai_state \<Rightarrow> IStreamEvent option \<times> openai_state" where
  "tool_calls_loop [] toolCallsInProgress = (None, toolCallsInProgress)"
| "tool_calls_loop (toolCall # rest) toolCallsInProgress =
     (let index = (case tc_index toolCall of None \<Rightarrow> 0 | Some i \<Rightarrow> i);
          name = (case tc_function toolCall of None \<Rightarrow> None | Some f \<Rightarrow> fn_name f);
          arguments = (case tc_function toolCall of None \<Rightarrow> None | Some f \<Rightarrow> fn_arguments f)
      in if truthy name then
           (Some ((event_of_type tool_start)\<lparr>ev_tool_name := name, ev_input := arguments\<rparr>),
            Map_set index
              \<lparr>tcs_id = (case tc_id toolCall of None \<Rightarrow> str ''tool_'' @ dec_int index | Some i \<Rightarrow> i),
               tcs_name = the name,
               tcs_arguments = (case arguments of None \<Rightarrow> [] | Some a \<Rightarrow> a)\<rparr>
              toolCallsInProgress)
         else if truthy arguments then
           (case Map_get toolCallsInProgress index of
              None \<Rightarrow> tool_calls_loop rest toolCallsInProgress
            | Some existing \<Rightarrow>
                tool_calls_loop rest
                  (Map_set index
                     (existing\<lparr>tcs_arguments := tcs_arguments existing @ the arguments\<rparr>)
                     toolCallsInProgress))
         else tool_calls_loop rest toolCallsInProgress)"

text \<open>
  The handling of \<open>finish_reason === 'tool_calls'\<close>: the body of the loop over the map
  is a \<open>return\<close>, so the first entry ends the call; \<open>clear()\<close> is reached only when the
  map has no entry.
\<close>

definition finish_tool_calls :: "openai_state \<Rightarrow> IStreamEvent option \<times> openai_state" where
  "finish_tool_calls toolCallsInProgress =
     (case toolCallsInProgress of
        [] \<Rightarrow> (None, [])
      | entry # _ \<Rightarrow>
          (Some ((event_of_type tool_end)
                   \<lparr>ev_tool_name := Some (tcs_name (snd entry)),
                    ev_output := Some (tcs_arguments (snd entry))\<rparr>),
           toolCallsInProgress))"

text \<open>
  The closure \<open>createOpenAIAdapter\<close> returns, with the map it closes over as an
  argument and a result.  A fresh adapter starts from the empty map.
\<close>

definition createOpenAIAdapter :: openai_state where
  "createOpenAIAdapter = []"

definition openai_adapter ::
  "openai_state \<Rightarrow> IOpenAIStreamChunk unknown \<Rightarrow> IStreamEvent option \<times> openai_state" where
  "openai_adapter toolCallsInProgress rawEvent =
     (case rawEvent of
        JsNull \<Rightarrow> (None, toolCallsInProgress)
      | JsPrimitive \<Rightarrow> (None, toolCallsInProgress)
      | JsObject chunk \<Rightarrow>
          (case (case choices chunk of None \<Rightarrow> None | Some [] \<Rightarrow> None | Some (c # _) \<Rightarrow> Some c) of
             None \<Rightarrow> (None, toolCallsInProgress)
           | Some choice \<Rightarrow>
               let delta = ch_delta choice;
                   content = (case delta of None \<Rightarrow> None | Some d \<Rightarrow> dl_content d);
                   tool_calls = (case delta of None \<Rightarrow> None | Some d \<Rightarrow> dl_tool_calls d)
               in if truthy content then
                    (Some ((event_of_type llm_token)\<lparr>ev_content := content\<rparr>), toolCallsInProgress)
                  else
                    (case (case tool_calls of
                             None \<Rightarrow> (None, toolCallsInProgress)
                           | Some tcs \<Rightarrow> tool_calls_loop tcs toolCallsInProgress) of
                       (Some event, m) \<Rightarrow> (Some event, m)
                     | (None, m) \<Rightarrow>
                         if ch_finish_reason choice = Some (str ''tool_calls'')
                         then finish_tool_calls m
                         else (None, m))))"

section \<open>adapters/anthropic.ts\<close>

datatype anthropic_event_type =
    message_start | content_block_start | content_block_delta | content_block_stop
  | message_delta | message_stop | ping | error_event

record anthropic_content_block =
  cb_type :: jsstring
  cb_id :: "jsstring option"
  cb_name :: "jsstring option"

record anthropic_delta =
  ad_type :: "jsstring option"
  ad_text :: "jsstring option"
  ad_partial_json :: "jsstring option"

record anthropic_error =
  ae_message :: "jsstring option"

record IAnthropicStreamEvent =
  an_type :: anthropic_event_type
  an_index :: "int option"
  an_content_block :: "anthropic_content_block option"
  an_delta :: "anthropic_delta option"
  an_error :: "anthropic_error option"

record IToolUseState =
  tus_id :: jsstring
  tus_name :: jsstring
  tus_input :: jsstring

type_synonym anthropic_state = "(int \<times> IToolUseState) list"

definition createAnthropicAdapter :: anthropic_state where
  "createAnthropicAdapter = []"

definition anthropic_adapter ::
  "anthropic_state \<Rightarrow> IAnthropicStreamEvent unknown \<Rightarrow> IStreamEvent option \<times> anthropic_state" where
  "anthropic_adapter toolUseInProgress rawEvent =
     (case rawEvent of
        JsNull \<Rightarrow> (None, toolUseInProgress)
      | JsPrimitive \<Rightarrow> (None, toolUseInProgress)
      | JsObject event \<Rightarrow>
          let index = (case an_index event of None \<Rightarrow> 0 | Some i \<Rightarrow> i) in
          (case an_type event of
             content_block_start \<Rightarrow>
               (case an_content_block event of
                  None \<Rightarrow> (None, toolUseInProgress)
                | Some block \<Rightarrow>
                    if cb_type block = str ''tool_use'' then
                      (Some ((event_of_type tool_start)
                               \<lparr>ev_tool_name :=
                                  Some (case cb_name block of None \<Rightarrow> str ''unknown_tool'' | Some n \<Rightarrow> n)\<rparr>),
                       Map_set index
                         \<lparr>tus_id = (case cb_id block of None \<Rightarrow> str ''tool_'' @ dec_int index | Some i \<Rightarrow> i),
                          tus_name = (case cb_name block of None \<Rightarrow> str ''unknown_tool'' | Some n \<Rightarrow> n),
                          tus_input = []\<rparr>
                         toolUseInProgress)
                    else (None, toolUseInProgress))
           | content_block_delta \<Rightarrow>
               let dtype = (case an_delta event of None \<Rightarrow> None | Some d \<Rightarrow> ad_type d);
                   text = (case an_delta event of None \<Rightarrow> None | Some d \<Rightarrow> ad_text d);
                   partial_json = (case an_delta event of None \<Rightarrow> None | Some d \<Rightarrow> ad_partial_json d)
               in if dtype = Some (str ''text_delta'') \<and> truthy text then
                    (Some ((event_of_type llm_token)\<lparr>ev_content := text\<rparr>), toolUseInProgress)
                  else if dtype = Some (str ''input_json_delta'') \<and> truthy partial_json then
                    (case Map_get toolUseInProgress index of
                       None \<Rightarrow> (None, toolUseInProgress)
                     | Some existing \<Rightarrow>
                         (None,
                          Map_set index
                            (existing\<lparr>tus_input := tus_input existing @ the partial_json\<rparr>)
                            toolUseInProgress))
                  else (None, toolUseInProgress)
           | content_block_stop \<Rightarrow>
               (case Map_get toolUseInProgress index of
                  None \<Rightarrow> (None, toolUseInProgress)
                | Some toolUse \<Rightarrow>
                    (Some ((event_of_type tool_end)
                             \<lparr>ev_tool_name := Some (tus_name toolUse),
                              ev_output := Some (tus_input toolUse)\<rparr>),
                     Map_delete index toolUseInProgress))
           | error_event \<Rightarrow>
               (Some ((event_of_type error)
                        \<lparr>ev_message :=
                           Some (case (case an_error event of None \<Rightarrow> None | Some e \<Rightarrow> ae_message e) of
                                   None \<Rightarrow> str ''Unknown Anthropic API error''
                                 | Some m \<Rightarrow> m)\<rparr>),
                toolUseInProgress)
           | _ \<Rightarrow> (None, toolUseInProgress)))"

section \<open>Feeding frames to an adapter\<close>

text \<open>Calling an adapter on a sequence of frames: the event of each call, and the last state.\<close>

fun run_adapter :: "('s \<Rightarrow> 'f \<Rightarrow> 'e option \<times> 's) \<Rightarrow> 's \<Rightarrow> 'f list \<Rightarrow> 'e option list \<times> 's" where
  "run_adapter adapter s [] = ([], s)"
| "run_adapter adapter s (f # fs) =
     (case adapter s f of
        (e, s') \<Rightarrow> (case run_adapter adapter s' fs of (es, s'') \<Rightarrow> (e # es, s'')))"

text \<open>
  The OpenAI frames of a tool call.  \<open>name_frame\<close>: \<open>choices[0].delta.tool_calls[0]\<close>
  carries \<open>function.name\<close> (and \<open>function.arguments\<close> when given).  \<open>arguments_frame\<close>:
  it carries only a \<open>function.arguments\<close> fragment.  \<open>finish_frame\<close>: \<open>choices[0]\<close> has
  an empty delta and \<open>finish_reason\<close> \<open>"tool_calls"\<close>.
\<close>

definition name_frame ::
  "int option \<Rightarrow> jsstring option \<Rightarrow> jsstring \<Rightarrow> jsstring option \<Rightarrow> IOpenAIStreamChunk unknown" where
  "name_frame index call_id name arguments =
     JsObject \<lparr>choices = Some
       [\<lparr>ch_delta = Some
           \<lparr>dl_content = None,
            dl_tool_calls = Some
              [\<lparr>tc_index = index, tc_id = call_id,
                tc_function = Some \<lparr>fn_name = Some name, fn_arguments = arguments\<rparr>\<rparr>]\<rparr>,
         ch_finish_reason = None\<rparr>]\<rparr>"

definition arguments_frame :: "int option \<Rightarrow> jsstring \<Rightarrow> IOpenAIStreamChunk unknown" where
  "arguments_frame index fragment =
     JsObject \<lparr>choices = Some
       [\<lparr>ch_delta = Some
           \<lparr>dl_content = None,
            dl_tool_calls = Some
              [\<lparr>tc_index = index, tc_id = None,
                tc_function = Some \<lparr>fn_name = None, fn_arguments = Some fragment\<rparr>\<rparr>]\<rparr>,
         ch_finish_reason = None\<rparr>]\<rparr>"

definition finish_frame :: "IOpenAIStreamChunk unknown" where
  "finish_frame =
     JsObject \<lparr>choices = Some
       [\<lparr>ch_delta = Some \<lparr>dl_content = None, dl_tool_calls = None\<rparr>,
         ch_finish_reason = Some (str ''tool_calls'')\<rparr>]\<rparr>"

text \<open>The events the OpenAI and Anthropic adapters build for a tool call.\<close>

definition ToolStart :: "jsstring \<Rightarrow> jsstring option \<Rightarrow> IStreamEvent" where
  "ToolStart name input = (event_of_type tool_start)\<lparr>ev_tool_name := Some name, ev_input := input\<rparr>"

definition ToolEnd :: "jsstring \<Rightarrow> jsstring \<Rightarrow> IStreamEvent" where
  "ToolEnd name output = (event_of_type tool_end)\<lparr>ev_tool_name := Some name, ev_output := Some output\<rparr>"

text \<open>
  The Anthropic events of a tool-use block: \<open>content_block_start\<close> with a \<open>tool_use\<close>
  content block, and \<open>content_block_stop\<close>.
\<close>

definition block_start ::
  "int option \<Rightarrow> jsstring option \<Rightarrow> jsstring option \<Rightarrow> IAnthropicStreamEvent unknown" where
  "block_start index block_id block_name =
     JsObject \<lparr>an_type = content_block_start, an_index = index,
       an_content_block = Some \<lparr>cb_type = str ''tool_use'', cb_id = block_id, cb_name = block_name\<rparr>,
       an_delta = None, an_error = None\<rparr>"

definition block_stop :: "int option \<Rightarrow> IAnthropicStreamEvent unknown" where
  "block_stop index =
     JsObject \<lparr>an_type = content_block_stop, an_index = index,
       an_content_block = None, an_delta = None, an_error = None\<rparr>"

section \<open>Adapter instances in a store\<close>

text \<open>
  Each call of a factory evaluates \<open>new Map()\<close> and returns a closure over that map.
  The store holds the map of every closure created so far under the closure's
  address; a factory call allocates the next address, and a call of a closure
  reads and writes the map at the closure's own address.
\<close>

datatype provider = OpenAI | Anthropic

datatype closure_state = OpenAIMap openai_state | AnthropicMap anthropic_state

datatype frame =
    OpenAIFrame "IOpenAIStreamChunk unknown"
  | AnthropicFrame "IAnthropicStreamEvent unknown"

record store =
  heap :: "nat \<Rightarrow> closure_state option"
  next_address :: nat

definition create_adapter :: "provider \<Rightarrow> store \<Rightarrow> nat \<times> store" where
  "create_adapter p s =
     (next_address s,
      \<lparr>heap = (heap s)(next_address s \<mapsto>
                 (case p of
                    OpenAI \<Rightarrow> OpenAIMap createOpenAIAdapter
                  | Anthropic \<Rightarrow> AnthropicMap createAnthropicAdapter)),
       next_address = Suc (next_address s)\<rparr>)"

text \<open>
  Calling the closure at address \<open>a\<close> on a frame.  A frame of the other provider's
  shape has none of the properties the adapter reads (no \<open>choices\<close>; no \<open>type\<close> that
  matches a \<open>case\<close>), so the adapter returns \<open>null\<close> and leaves its map alone.
\<close>

definition call_adapter :: "nat \<Rightarrow> frame \<Rightarrow> store \<Rightarrow> IStreamEvent option \<times> store" where
  "call_adapter a f s =
     (case heap s a of
        None \<Rightarrow> (None, s)
      | Some (OpenAIMap m) \<Rightarrow>
          (case f of
             OpenAIFrame rawEvent \<Rightarrow>
               (case openai_adapter m rawEvent of
                  (e, m') \<Rightarrow> (e, s\<lparr>heap := (heap s)(a \<mapsto> OpenAIMap m')\<rparr>))
           | AnthropicFrame _ \<Rightarrow> (None, s))
      | Some (AnthropicMap m) \<Rightarrow>
          (case f of
             AnthropicFrame rawEvent \<Rightarrow>
               (case anthropic_adapter m rawEvent of
                  (e, m') \<Rightarrow> (e, s\<lparr>heap := (heap s)(a \<mapsto> AnthropicMap m')\<rparr>))
           | OpenAIFrame _ \<Rightarrow> (None, s)))"

text \<open>
  A sequence of calls, each naming the instance it goes to: the event of each call
  paired with the address of its instance, and the last store.
\<close>

fun run_calls :: "store \<Rightarrow> (nat \<times> frame) list \<Rightarrow> (nat \<times> IStreamEvent option) list \<times> store" where
  "run_calls s [] = ([], s)"
| "run_calls s (c # cs) =
     (case call_adapter (fst c) (snd c) s of
        (e, s') \<Rightarrow> (case run_calls s' cs of (es, s'') \<Rightarrow> ((fst c, e) # es, s'')))"

text \<open>What instance \<open>a\<close> returned, in order, and the calls that went to it.\<close>

definition events_of :: "nat \<Rightarrow> (nat \<times> IStreamEvent option) list \<Rightarrow> IStreamEvent option list" where
  "events_of a es = map snd (filter (\<lambda>e. fst e = a) es)"

definition calls_to :: "nat \<Rightarrow> (nat \<times> frame) list \<Rightarrow> (nat \<times> frame) list" where
  "calls_to a cs = filter (\<lambda>c. fst c = a) cs"

section \<open>utils/streaming.ts: the stream driver\<close>

text \<open>
  What a rejected promise or a \<open>throw\<close> carries: an \<open>Error\<close> object (a DOMException is
  one) with its name and message, or some other value, kept as its \<open>String(...)\<close>
  text.  An aborted signal makes the pending \<open>fetch\<close> or \<open>reader.read()\<close> reject with
  an Error named \<open>AbortError\<close>.
\<close>

datatype thrown = ErrorObject jsstring jsstring | OtherValue jsstring

definition AbortError :: "jsstring \<Rightarrow> thrown" where
  "AbortError message = ErrorObject (str ''AbortError'') message"

text \<open>\<open>error instanceof Error ? error : new Error(String(error))\<close>\<close>

definition to_Error :: "thrown \<Rightarrow> thrown" where
  "to_Error e = (case e of ErrorObject n m \<Rightarrow> ErrorObject n m | OtherValue t \<Rightarrow> ErrorObject (str ''Error'') t)"

text \<open>
  The network as \<open>streamSSE\<close> meets it.  \<open>fetch\<close> rejects or resolves to a response.
  A response has \<open>ok\<close>, \<open>status\<close>, the outcome of \<open>text()\<close>, and a body that is \<open>null\<close>
  or a stream: the chunks its reader delivers, as the \<open>TextDecoder\<close> decodes them,
  and then either \<open>done\<close> or a rejected \<open>read()\<close>.
\<close>

datatype body_end = EndOfStream | ReadRejected thrown

record response =
  rs_ok :: bool
  rs_status :: nat
  rs_text :: "thrown + jsstring"
  rs_body :: "(jsstring list \<times> body_end) option"

datatype fetch_result = FetchRejected thrown | FetchResolved response

text \<open>The calls \<open>streamSSE\<close> makes to its three callbacks.\<close>

datatype callback = OnEvent IStreamEvent | OnComplete | OnError thrown

text \<open>
  \<open>streamSSE\<close>, as the list of callback calls it makes, in order.  The adapter is a
  closure: a step function on its state \<open>s0\<close>.  The parser's \<open>onData\<close> calls the adapter
  and, when it returns an event, \<open>onEvent\<close>; the values it is called with are the
  \<open>delivered\<close> values of the parser fed with the chunks.  The inner \<open>catch\<close> around the
  read loop turns an \<open>AbortError\<close> into \<open>onComplete()\<close> and rethrows everything else;
  the outer \<open>catch\<close> calls \<open>onError\<close>.
\<close>

definition streamSSE ::
  "(jsstring \<Rightarrow> json option) \<Rightarrow> nat \<Rightarrow> ('s \<Rightarrow> json \<Rightarrow> IStreamEvent option \<times> 's) \<Rightarrow> 's \<Rightarrow> fetch_result
     \<Rightarrow> callback list" where
  "streamSSE parse stack adapter s0 fetched =
     (case fetched of
        FetchRejected e \<Rightarrow> [OnError (to_Error e)]
      | FetchResolved response \<Rightarrow>
          if \<not> rs_ok response then
            (case rs_text response of
               Inl e \<Rightarrow> [OnError (to_Error e)]
             | Inr errorText \<Rightarrow>
                 [OnError (ErrorObject (str ''Error'')
                    (str ''HTTP '' @ dec_nat (rs_status response) @ str '': '' @ errorText))])
          else
            (case rs_body response of
               None \<Rightarrow> [OnError (ErrorObject (str ''Error'') (str ''Response body is null''))]
             | Some (chunks, ending) \<Rightarrow>
                 let parser = feed_all parse stack no_options createSSEParser chunks;
                     events = List.map_filter (\<lambda>e. e) (fst (run_adapter adapter s0 (delivered parser)))
                 in map OnEvent events @
                    (case ending of
                       EndOfStream \<Rightarrow> [OnComplete]
                     | ReadRejected e \<Rightarrow>
                         (case e of
                            ErrorObject name message \<Rightarrow>
                              if name = str ''AbortError'' then [OnComplete]
                              else [OnError (to_Error e)]
                          | OtherValue t \<Rightarrow> [OnError (to_Error e)]))))"

section \<open>hooks/useChatMessages.ts\<close>

datatype MessageRole = user | assistant

record IPdfFile =
  pdf_uuid :: jsstring
  pdf_name :: jsstring

datatype IContentSegment = ITextSegment jsstring | IToolSegment nat

record IToolOutput =
  to_toolName :: jsstring
  to_friendlyName :: jsstring
  to_output :: jsstring
  to_visible :: bool
  to_title :: "jsstring option"

text \<open>\<open>IMessage\<close>; the timestamp is the clock reading \<open>new Date()\<close> took.\<close>

record IMessage =
  msg_id :: jsstring
  msg_role :: MessageRole
  msg_content :: jsstring
  msg_attachedFiles :: "IPdfFile list option"
  msg_toolOutputs :: "IToolOutput list option"
  msg_contentSegments :: "IContentSegment list option"
  msg_timestamp :: nat

text \<open>
  The state of one \<open>useChatMessages\<close> hook: its three \<open>useState\<close> values and its four
  refs.  \<open>abortControllerRef\<close> is \<open>None\<close> for \<open>null\<close>; \<open>requestAborted\<close> tells whether the
  signal handed to the request in flight has been aborted.  State updates are
  applied in the order the code queues them.
\<close>

record chat_state =
  messages :: "IMessage list"
  isStreaming :: bool
  uploadedPdfs :: "IPdfFile list"
  accumulatedContentRef :: jsstring
  contentSegmentsRef :: "IContentSegment list"
  currentTextSegmentRef :: jsstring
  abortControllerRef :: "unit option"
  requestAborted :: bool

definition useChatMessages :: chat_state where
  "useChatMessages =
     \<lparr>messages = [], isStreaming = False, uploadedPdfs = [], accumulatedContentRef = [],
      contentSegmentsRef = [], currentTextSegmentRef = [], abortControllerRef = None,
      requestAborted = False\<rparr>"

definition trimMessages :: "int \<Rightarrow> IMessage list \<Rightarrow> IMessage list" where
  "trimMessages maxMessages msgs =
     (if maxMessages \<le> 0 \<or> int (length msgs) \<le> maxMessages then msgs
      else drop (length msgs - nat maxMessages) msgs)"

text \<open>
  The updater \<open>(prev) => { ...; if (lastMessage && lastMessage.role === "assistant")
  lastMessage.f = v; return updated }\<close>.
\<close>

definition update_last_assistant :: "(IMessage \<Rightarrow> IMessage) \<Rightarrow> IMessage list \<Rightarrow> IMessage list" where
  "update_last_assistant f prev =
     (if prev \<noteq> [] \<and> msg_role (last prev) = assistant then butlast prev @ [f (last prev)]
      else prev)"

definition is_text_segment :: "IContentSegment \<Rightarrow> bool" where
  "is_text_segment seg = (case seg of ITextSegment _ \<Rightarrow> True | IToolSegment _ \<Rightarrow> False)"

text \<open>Replacing the last segment when it is a text segment, appending one otherwise.\<close>

definition put_text_segment :: "IContentSegment list \<Rightarrow> jsstring \<Rightarrow> IContentSegment list" where
  "put_text_segment segments text =
     (if segments \<noteq> [] \<and> is_text_segment (last segments) then butlast segments @ [ITextSegment text]
      else segments @ [ITextSegment text])"

definition finalizeAssistantMessage :: "chat_state \<Rightarrow> chat_state" where
  "finalizeAssistantMessage st =
     (if trim (currentTextSegmentRef st) \<noteq> [] then
        (let segments = put_text_segment (contentSegmentsRef st) (currentTextSegmentRef st) in
         st\<lparr>contentSegmentsRef := segments,
            messages := update_last_assistant (\<lambda>m. m\<lparr>msg_contentSegments := Some segments\<rparr>) (messages st)\<rparr>)
      else st)"

definition handleStreamEvent :: "chat_state \<Rightarrow> IStreamEvent \<Rightarrow> chat_state" where
  "handleStreamEvent st event =
     (if ev_type event = llm_token \<or> ev_type event = tool_content then
        (if truthy (ev_content event) then
           (let contentToAdd = the (ev_content event);
                accumulated = accumulatedContentRef st @ contentToAdd;
                current = currentTextSegmentRef st @ contentToAdd;
                segments = put_text_segment (contentSegmentsRef st) current
            in st\<lparr>accumulatedContentRef := accumulated,
                  currentTextSegmentRef := current,
                  contentSegmentsRef := segments,
                  messages :=
                    update_last_assistant (\<lambda>m. m\<lparr>msg_contentSegments := Some segments\<rparr>)
                      (update_last_assistant (\<lambda>m. m\<lparr>msg_content := accumulated\<rparr>) (messages st))\<rparr>)
         else st)
      else st)"

text \<open>Which way of calling the API the hook was configured with.\<close>

datatype api_config = SendMessageToApi | StreamConfig | NoApi

definition new_user_message :: "jsstring \<Rightarrow> nat \<Rightarrow> jsstring \<Rightarrow> IPdfFile list \<Rightarrow> IMessage" where
  "new_user_message new_id now userInput pdfs =
     \<lparr>msg_id = new_id, msg_role = user, msg_content = userInput,
      msg_attachedFiles = (if pdfs \<noteq> [] then Some pdfs else None),
      msg_toolOutputs = None, msg_contentSegments = None, msg_timestamp = now\<rparr>"

definition new_assistant_message :: "jsstring \<Rightarrow> nat \<Rightarrow> IMessage" where
  "new_assistant_message new_id now =
     \<lparr>msg_id = new_id, msg_role = assistant, msg_content = [],
      msg_attachedFiles = None, msg_toolOutputs = None, msg_contentSegments = None,
      msg_timestamp = now\<rparr>"

text \<open>
  \<open>sendMessage\<close> up to its \<open>await\<close>: the state while the request is in flight.
  \<open>id1\<close>, \<open>id2\<close> are the results of the two calls of \<open>generateId()\<close> and \<open>t1\<close>, \<open>t2\<close> of the
  two \<open>new Date()\<close>.  With no API configured, \<open>isStreaming\<close> is set back to \<open>false\<close> at
  once and the controller stays in the ref.
\<close>

definition sendMessage ::
  "int \<Rightarrow> api_config \<Rightarrow> jsstring \<Rightarrow> nat \<Rightarrow> jsstring \<Rightarrow> nat \<Rightarrow> jsstring \<Rightarrow> chat_state \<Rightarrow> chat_state" where
  "sendMessage maxMessages api id1 t1 id2 t2 userInput st =
     (if trim userInput = [] then st
      else
        (let userMessage = new_user_message id1 t1 userInput (uploadedPdfs st);
             assistantMessage = new_assistant_message id2 t2
         in st\<lparr>messages :=
                 trimMessages maxMessages
                   (trimMessages maxMessages (messages st @ [userMessage]) @ [assistantMessage]),
               accumulatedContentRef := [],
               contentSegmentsRef := [],
               currentTextSegmentRef := [],
               isStreaming := (api \<noteq> NoApi),
               abortControllerRef := Some (),
               requestAborted := False,
               uploadedPdfs := []\<rparr>))"

text \<open>The \<open>onComplete\<close> and \<open>onError\<close> callbacks \<open>sendMessage\<close> hands to the API call.\<close>

definition onComplete_callback :: "chat_state \<Rightarrow> chat_state" where
  "onComplete_callback st = (finalizeAssistantMessage st)\<lparr>isStreaming := False, abortControllerRef := None\<rparr>"

definition onError_callback :: "chat_state \<Rightarrow> chat_state" where
  "onError_callback st = st\<lparr>isStreaming := False, abortControllerRef := None\<rparr>"

definition stopStreaming :: "chat_state \<Rightarrow> chat_state" where
  "stopStreaming st =
     (case abortControllerRef st of
        None \<Rightarrow> st
      | Some _ \<Rightarrow>
          st\<lparr>requestAborted := True,
             abortControllerRef := None,
             isStreaming := False,
             accumulatedContentRef := [],
             contentSegmentsRef := [],
             currentTextSegmentRef := [],
             messages :=
               (if messages st \<noteq> [] \<and> msg_role (last (messages st)) = assistant
                   \<and> trim (msg_content (last (messages st))) = []
                then butlast (messages st) else messages st)\<rparr>)"

section \<open>The line splitter is independent of the chunking\<close>

lemma split_lf_ne: "split_lf s \<noteq> []"
  by (induction s) (auto split: list.splits)

lemma split_lf_append:
  "split_lf (x @ b) = butlast (split_lf x) @ split_lf (last (split_lf x) @ b)"
proof (induction x)
  case Nil
  show ?case by simp
next
  case (Cons c cs)
  show ?case
  proof (cases "c = 0x0A")
    case True
    with Cons show ?thesis by (simp add: split_lf_ne)
  next
    case False
    obtain l ls where S: "split_lf cs = l # ls"
      using split_lf_ne[of cs] by (cases "split_lf cs") auto
    show ?thesis
    proof (cases ls)
      case Nil
      with S False Cons show ?thesis by simp
    next
      case (Cons l' ls')
      with S False Cons.IH show ?thesis by simp
    qed
  qed
qed

lemma split_lf_no_lf: "0x0A \<notin> set l \<Longrightarrow> split_lf l = [l]"
  by (induction l) auto

lemma split_lf_snoc_lf: "0x0A \<notin> set l \<Longrightarrow> split_lf (l @ [0x0A]) = [l, []]"
  by (induction l) auto

lemma last_split_lf_no_lf: "0x0A \<notin> set (last (split_lf s))"
proof (induction s)
  case Nil
  show ?case by simp
next
  case (Cons c cs)
  obtain l ls where S: "split_lf cs = l # ls"
    using split_lf_ne[of cs] by (cases "split_lf cs") auto
  with Cons show ?case by (cases ls) auto
qed

lemma last_split_lf: "last (split_lf s) = after_last_lf s"
proof (induction s rule: rev_induct)
  case Nil
  show ?case by (simp add: after_last_lf_def)
next
  case (snoc c s)
  have n: "0x0A \<notin> set (last (split_lf s))" by (rule last_split_lf_no_lf)
  have "last (split_lf (s @ [c])) = last (split_lf (last (split_lf s) @ [c]))"
    by (subst split_lf_append) (simp add: split_lf_ne)
  also have "\<dots> = (if c = 0x0A then [] else last (split_lf s) @ [c])"
  proof (cases "c = 0x0A")
    case True
    then show ?thesis using split_lf_snoc_lf[OF n] by simp
  next
    case False
    with n have "0x0A \<notin> set (last (split_lf s) @ [c])" by simp
    from split_lf_no_lf[OF this] False show ?thesis by simp
  qed
  also have "\<dots> = after_last_lf (s @ [c])"
    using snoc by (simp add: after_last_lf_def)
  finally show ?case .
qed

lemma feed_append: "feed parse stack opts (feed parse stack opts p a) b = feed parse stack opts p (a @ b)"
proof -
  have "split_lf ((buffer p @ a) @ b)
      = butlast (split_lf (buffer p @ a)) @ split_lf (last (split_lf (buffer p @ a)) @ b)"
    by (rule split_lf_append)
  then show ?thesis
    by (simp add: feed_def Let_def butlast_append split_lf_ne)
qed

lemma feed_fresh_empty: "feed parse stack opts createSSEParser [] = createSSEParser"
  by (simp add: feed_def createSSEParser_def)

lemma feed_all_fresh:
  "feed_all parse stack opts createSSEParser chunks = feed parse stack opts createSSEParser (concat chunks)"
proof (induction chunks rule: rev_induct)
  case Nil
  show ?case by (simp add: feed_all_def feed_fresh_empty)
next
  case (snoc c cs)
  have "feed_all parse stack opts createSSEParser (cs @ [c])
      = feed parse stack opts (feed_all parse stack opts createSSEParser cs) c"
    by (simp add: feed_all_def)
  also have "\<dots> = feed parse stack opts createSSEParser (concat cs @ c)"
    by (simp only: snoc feed_append)
  finally show ?case by simp
qed

text \<open>
  C1.  Feeding the chunks of any partition of a string one by one to a fresh parser
  leaves it in the state that feeding the whole string as one chunk does: the same
  lines handed to \<open>parseSSELine\<close> and the same values passed to \<open>onData\<close>, in the
  same order.  From any state, \<open>feed\<close> of \<open>a @ b\<close> equals \<open>feed\<close> of \<open>a\<close> followed by
  \<open>feed\<close> of \<open>b\<close>.  The lines processed are the pieces of the string before its last
  line feed, and the buffer is what follows the last line feed.
\<close>

theorem C1_chunking_invariance:
  "feed_all parse stack opts createSSEParser chunks = feed parse stack opts createSSEParser (concat chunks)
   \<and> feed parse stack opts (feed parse stack opts p a) b = feed parse stack opts p (a @ b)
   \<and> processed (feed_all parse stack opts createSSEParser chunks) = butlast (split_lf (concat chunks))
   \<and> buffer (feed_all parse stack opts createSSEParser chunks) = after_last_lf (concat chunks)"
proof -
  have whole: "feed_all parse stack opts createSSEParser chunks
             = feed parse stack opts createSSEParser (concat chunks)"
    by (rule feed_all_fresh)
  have lines: "processed (feed parse stack opts createSSEParser (concat chunks))
             = butlast (split_lf (concat chunks))"
    by (simp add: feed_def Let_def createSSEParser_def)
  have rest: "buffer (feed parse stack opts createSSEParser (concat chunks))
            = after_last_lf (concat chunks)"
    by (simp add: feed_def Let_def createSSEParser_def last_split_lf)
  show ?thesis
    using whole lines rest feed_append[of parse stack opts p a b] by simp
qed

theorem C1_chunking_invariance_witness:
  "feed_all JSON_parse 100 no_options createSSEParser
     [str ''data: 1'', 0x0A # str ''da'', str ''ta: x'' @ 0x0A # str ''y'']
   = feed JSON_parse 100 no_options createSSEParser
       (concat [str ''data: 1'', 0x0A # str ''da'', str ''ta: x'' @ 0x0A # str ''y''])
   \<and> processed (feed_all JSON_parse 100 no_options createSSEParser
        [str ''data: 1'', 0x0A # str ''da'', str ''ta: x'' @ 0x0A # str ''y''])
     = [str ''data: 1'', str ''data: x'']
   \<and> buffer (feed_all JSON_parse 100 no_options createSSEParser
        [str ''data: 1'', 0x0A # str ''da'', str ''ta: x'' @ 0x0A # str ''y''])
     = str ''y''"
proof -
  let ?chunks = "[str ''data: 1'', 0x0A # str ''da'', str ''ta: x'' @ 0x0A # str ''y'']"
  have l: "butlast (split_lf (concat ?chunks)) = [str ''data: 1'', str ''data: x'']"
    by code_simp
  have r: "after_last_lf (concat ?chunks) = str ''y''"
    by code_simp
  from C1_chunking_invariance[of JSON_parse 100 no_options ?chunks createSSEParser "[]" "[]"]
  have "feed_all JSON_parse 100 no_options createSSEParser ?chunks
          = feed JSON_parse 100 no_options createSSEParser (concat ?chunks)"
    and "processed (feed_all JSON_parse 100 no_options createSSEParser ?chunks)
          = butlast (split_lf (concat ?chunks))"
    and "buffer (feed_all JSON_parse 100 no_options createSSEParser ?chunks)
          = after_last_lf (concat ?chunks)"
    by blast+
  then show ?thesis
    by (simp only: l r)
qed

section \<open>The guarded decoder\<close>

lemma max_list_le: "(max_list xs \<le> k) = (\<forall>x\<in>set xs. x \<le> k)"
  by (induction xs) auto


lemma int_max_list_le:
  "(d + int (max_list xs) \<le> m) = (d \<le> m \<and> (\<forall>x\<in>set xs. d + int x \<le> m))"
  by (induction xs) auto

lemma for_each_check_True:
  "(for_each_check check xs = Some True) = (\<forall>x\<in>set xs. check x = Some True)"
  by (induction xs) (auto split: option.splits)

text \<open>
  \<open>checkJsonDepth\<close> started at depth \<open>d\<close> returns \<open>true\<close> exactly when no value of the
  tree lies more than \<open>maxDepth - d\<close> levels below the root and the stack has room
  for a call at the deepest level.  In every other case it returns \<open>false\<close> or
  throws.
\<close>

lemma checkJsonDepth_accepts:
  "(checkJsonDepth stack v maxDepth d = Some True)
     = (d + int (enclosing_levels v) \<le> maxDepth \<and> enclosing_levels v < stack)"
proof (induction stack arbitrary: v d)
  case 0
  show ?case by simp
next
  case (Suc stack)
  show ?case
  proof (cases v)
    case (JArray items)
    have "(checkJsonDepth (Suc stack) (JArray items) maxDepth d = Some True)
        = (d \<le> maxDepth \<and> (\<forall>x\<in>set items. checkJsonDepth stack x maxDepth (d + 1) = Some True))"
      by (simp add: for_each_check_True)
    also have "\<dots> = (d \<le> maxDepth
         \<and> (\<forall>x\<in>set items. d + 1 + int (enclosing_levels x) \<le> maxDepth \<and> enclosing_levels x < stack))"
      by (simp add: Suc)
    also have "\<dots> = (d + int (enclosing_levels (JArray items)) \<le> maxDepth
         \<and> enclosing_levels (JArray items) \<le> stack)"
      by (auto simp: int_max_list_le max_list_le add.assoc Suc_le_eq)
    finally show ?thesis using JArray by (simp add: less_Suc_eq_le)
  next
    case (JObject members)
    have "(checkJsonDepth (Suc stack) (JObject members) maxDepth d = Some True)
        = (d \<le> maxDepth
           \<and> (\<forall>m\<in>set members. checkJsonDepth stack (snd m) maxDepth (d + 1) = Some True))"
      by (simp add: for_each_check_True)
    also have "\<dots> = (d \<le> maxDepth
         \<and> (\<forall>m\<in>set members. d + 1 + int (enclosing_levels (snd m)) \<le> maxDepth
                \<and> enclosing_levels (snd m) < stack))"
      by (simp add: Suc)
    also have "\<dots> = (d + int (enclosing_levels (JObject members)) \<le> maxDepth
         \<and> enclosing_levels (JObject members) \<le> stack)"
      by (auto simp: int_max_list_le max_list_le add.assoc Suc_le_eq)
    finally show ?thesis using JObject by (simp add: less_Suc_eq_le)
  qed simp_all
qed





lemma safeJsonParse_result:
  "safeJsonParse parse stack s maxSize maxDepth =
     (case parse s of
        None \<Rightarrow> JNull
      | Some v \<Rightarrow>
          if int (blob_size s) \<le> maxSize \<and> int (enclosing_levels v) \<le> maxDepth
             \<and> enclosing_levels v < stack
          then v else JNull)"
proof (cases "parse s")
  case None
  then show ?thesis by (simp add: safeJsonParse_def)
next
  case (Some v)
  have "(case checkJsonDepth stack v maxDepth 0 of
           None \<Rightarrow> JNull
         | Some ok \<Rightarrow> if \<not> ok then JNull else v)
      = (if int (enclosing_levels v) \<le> maxDepth \<and> enclosing_levels v < stack then v else JNull)"
    using checkJsonDepth_accepts[of stack v maxDepth 0]
    by (cases "checkJsonDepth stack v maxDepth 0") auto
  with Some show ?thesis
    by (simp add: safeJsonParse_def checkJsonSize_def)
qed




section \<open>The frame parser\<close>

lemma parseSSELine_unfold:
  "parseSSELine parse stack line opts =
     (if trim line = [] then JNull
      else if startsWith (trim line) (str '':'') then JNull
      else if \<not> startsWith (trim line) (field_prefix opts) then JNull
      else if payload_of line opts = str ''[DONE]'' then JNull
      else if parseJson opts = Some False then JString (payload_of line opts)
      else if decoded_payload parse stack line opts = JNull \<and> payload_of line opts \<noteq> []
        then JString (payload_of line opts)
      else decoded_payload parse stack line opts)"
  by (auto simp: parseSSELine_def Let_def field_prefix_def payload_of_def decoded_payload_def
      split: option.splits)

text \<open>
  C3, as the claim states it, fails: the line \<open>"  data: 1"\<close> does not begin with the
  prefix \<open>"data:"\<close>, and \<open>parseSSELine\<close> returns the number 1 for it.
\<close>

theorem C3_leading_space_counterexample:
  "\<not> startsWith (str ''  data: 1'') (field_prefix no_options)
   \<and> parseSSELine JSON_parse 100 (str ''  data: 1'') no_options = JNumber (str ''1'')"
  by code_simp

text \<open>
  C3, amended.  \<open>parseSSELine\<close> first removes the whitespace around the line.  It
  returns \<open>null\<close> when the trimmed line is empty, when it begins with \<open>:\<close>, when it does
  not begin with the configured prefix, and when the trimmed payload is \<open>[DONE]\<close>.
  Otherwise, with JSON parsing switched off it returns the trimmed payload as a
  string; with it on (the default) it returns what the guarded decoder returns,
  except that it returns the trimmed payload as a string when the decoder returns
  \<open>null\<close> and the payload is not empty.  For any \<open>JSON.parse\<close> that rejects \<open>hello\<close>,
  \<open>parseSSELine("data: hello")\<close> is the string \<open>"hello"\<close>.
\<close>

theorem C3_parseSSELine_rules:
  "(trim line = [] \<longrightarrow> parseSSELine parse stack line opts = JNull)
   \<and> (startsWith (trim line) (str '':'') \<longrightarrow> parseSSELine parse stack line opts = JNull)
   \<and> (\<not> startsWith (trim line) (field_prefix opts) \<longrightarrow> parseSSELine parse stack line opts = JNull)
   \<and> (payload_of line opts = str ''[DONE]'' \<longrightarrow> parseSSELine parse stack line opts = JNull)
   \<and> (trim line \<noteq> [] \<and> \<not> startsWith (trim line) (str '':'')
        \<and> startsWith (trim line) (field_prefix opts) \<and> payload_of line opts \<noteq> str ''[DONE]'' \<longrightarrow>
        parseSSELine parse stack line opts =
          (if parseJson opts = Some False then JString (payload_of line opts)
           else if decoded_payload parse stack line opts = JNull \<and> payload_of line opts \<noteq> []
             then JString (payload_of line opts)
           else decoded_payload parse stack line opts))
   \<and> (parse (str ''hello'') = None \<longrightarrow>
        parseSSELine parse stack (str ''data: hello'') no_options = JString (str ''hello''))"
proof -
  have t: "trim (str ''data: hello'') = str ''data: hello''" by code_simp
  have p: "payload_of (str ''data: hello'') no_options = str ''hello''" by code_simp
  have s: "startsWith (str ''data: hello'') (field_prefix no_options)" by code_simp
  have c: "\<not> startsWith (str ''data: hello'') (str '':'')" by code_simp
  have e: "str ''data: hello'' \<noteq> []" "str ''hello'' \<noteq> str ''[DONE]''" "str ''hello'' \<noteq> []"
    by (simp_all add: str_def)
  have o: "parseJson no_options = None" by (simp add: no_options_def)
  have hello: "parseSSELine parse stack (str ''data: hello'') no_options = JString (str ''hello'')"
    if "parse (str ''hello'') = None"
  proof -
    have "decoded_payload parse stack (str ''data: hello'') no_options = JNull"
      using that by (simp add: decoded_payload_def p safeJsonParse_result)
    then show ?thesis
      by (simp add: parseSSELine_unfold t p s c e o)
  qed
  show ?thesis
    using hello by (simp add: parseSSELine_unfold)
qed

theorem C3_parseSSELine_rules_witness:
  "trim (str ''   '') = [] \<and> parseSSELine JSON_parse 100 (str ''   '') no_options = JNull
   \<and> startsWith (trim (str '': ping'')) (str '':'')
   \<and> parseSSELine JSON_parse 100 (str '': ping'') no_options = JNull
   \<and> \<not> startsWith (trim (str ''event: x'')) (field_prefix no_options)
   \<and> parseSSELine JSON_parse 100 (str ''event: x'') no_options = JNull
   \<and> payload_of (str ''data: [DONE]'') no_options = str ''[DONE]''
   \<and> parseSSELine JSON_parse 100 (str ''data: [DONE]'') no_options = JNull
   \<and> parseSSELine JSON_parse 100 (str ''data: [7]'') no_options = JArray [JNumber (str ''7'')]
   \<and> JSON_parse (str ''hello'') = None
   \<and> parseSSELine JSON_parse 100 (str ''data: hello'') no_options = JString (str ''hello'')"
proof -
  have b: "trim (str ''   '') = []" by code_simp
  have c: "startsWith (trim (str '': ping'')) (str '':'')" by code_simp
  have e: "\<not> startsWith (trim (str ''event: x'')) (field_prefix no_options)" by code_simp
  have d: "payload_of (str ''data: [DONE]'') no_options = str ''[DONE]''" by code_simp
  have h: "JSON_parse (str ''hello'') = None" by code_simp
  have j: "trim (str ''data: [7]'') \<noteq> [] \<and> \<not> startsWith (trim (str ''data: [7]'')) (str '':'')
        \<and> startsWith (trim (str ''data: [7]'')) (field_prefix no_options)
        \<and> payload_of (str ''data: [7]'') no_options \<noteq> str ''[DONE]''"
    by code_simp
  have k: "(if parseJson no_options = Some False then JString (payload_of (str ''data: [7]'') no_options)
           else if decoded_payload JSON_parse 100 (str ''data: [7]'') no_options = JNull
                   \<and> payload_of (str ''data: [7]'') no_options \<noteq> []
             then JString (payload_of (str ''data: [7]'') no_options)
           else decoded_payload JSON_parse 100 (str ''data: [7]'') no_options)
          = JArray [JNumber (str ''7'')]"
    by code_simp
  have "parseSSELine JSON_parse 100 (str ''   '') no_options = JNull"
    using C3_parseSSELine_rules[of "str ''   ''" JSON_parse 100 no_options] b by blast
  moreover have "parseSSELine JSON_parse 100 (str '': ping'') no_options = JNull"
    using C3_parseSSELine_rules[of "str '': ping''" JSON_parse 100 no_options] c by blast
  moreover have "parseSSELine JSON_parse 100 (str ''event: x'') no_options = JNull"
    using C3_parseSSELine_rules[of "str ''event: x''" JSON_parse 100 no_options] e by blast
  moreover have "parseSSELine JSON_parse 100 (str ''data: [DONE]'') no_options = JNull"
    using C3_parseSSELine_rules[of "str ''data: [DONE]''" JSON_parse 100 no_options] d by blast
  moreover have "parseSSELine JSON_parse 100 (str ''data: [7]'') no_options = JArray [JNumber (str ''7'')]"
    using C3_parseSSELine_rules[of "str ''data: [7]''" JSON_parse 100 no_options] j k by presburger
  moreover have "parseSSELine JSON_parse 100 (str ''data: hello'') no_options = JString (str ''hello'')"
    using C3_parseSSELine_rules[of "[]" JSON_parse 100 no_options] h by blast
  ultimately show ?thesis
    using b c e d h by blast
qed

text \<open>
  C10.  When the trimmed payload of a data line is the text \<open>null\<close>, which
  \<open>JSON.parse\<close> decodes to the null value, \<open>safeJsonParse\<close> returns \<open>null\<close> as it does
  for a failed decode, and \<open>parseSSELine\<close> returns the four-character string
  \<open>"null"\<close>.  When the payload after the prefix is empty, which \<open>JSON.parse\<close>
  rejects, \<open>parseSSELine\<close> with JSON parsing on returns \<open>null\<close>.
\<close>

theorem C10_null_and_empty_payload:
  "(parse (str ''null'') = Some JNull \<longrightarrow>
      safeJsonParse parse stack (str ''null'') maxSize maxDepth = JNull)
   \<and> (parse (str ''null'') = Some JNull \<and> trim line \<noteq> []
        \<and> \<not> startsWith (trim line) (str '':'') \<and> startsWith (trim line) (field_prefix opts)
        \<and> payload_of line opts = str ''null'' \<longrightarrow>
      parseSSELine parse stack line opts = JString (str ''null''))
   \<and> (parse [] = None \<and> trim line \<noteq> []
        \<and> \<not> startsWith (trim line) (str '':'') \<and> startsWith (trim line) (field_prefix opts)
        \<and> payload_of line opts = [] \<and> parseJson opts \<noteq> Some False \<longrightarrow>
      parseSSELine parse stack line opts = JNull)"
proof -
  have n: "str ''null'' \<noteq> str ''[DONE]''" "str ''null'' \<noteq> []" "[] \<noteq> str ''[DONE]''"
    by (simp_all add: str_def)
  have a: "safeJsonParse parse stack (str ''null'') ms md = JNull"
    if "parse (str ''null'') = Some JNull" for ms md
    using that by (simp add: safeJsonParse_result)
  have b: "decoded_payload parse stack line opts = JNull"
    if "parse (str ''null'') = Some JNull" "payload_of line opts = str ''null''"
    using that by (simp add: decoded_payload_def a)
  have c: "decoded_payload parse stack line opts = JNull"
    if "parse [] = None" "payload_of line opts = []"
    using that by (simp add: decoded_payload_def safeJsonParse_result)
  show ?thesis
    using a b c n by (auto simp: parseSSELine_unfold)
qed

theorem C10_null_and_empty_payload_witness:
  "JSON_parse (str ''null'') = Some JNull
   \<and> safeJsonParse JSON_parse 100 (str ''null'') DEFAULT_MAX_JSON_SIZE DEFAULT_MAX_JSON_DEPTH = JNull
   \<and> payload_of (str ''data: null'') no_options = str ''null''
   \<and> parseSSELine JSON_parse 100 (str ''data: null'') no_options = JString (str ''null'')
   \<and> JSON_parse [] = None
   \<and> payload_of (str ''data: '') no_options = []
   \<and> parseSSELine JSON_parse 100 (str ''data: '') no_options = JNull"
proof -
  have p: "JSON_parse (str ''null'') = Some JNull" by code_simp
  have q: "JSON_parse [] = None" by code_simp
  have l1: "trim (str ''data: null'') \<noteq> [] \<and> \<not> startsWith (trim (str ''data: null'')) (str '':'')
        \<and> startsWith (trim (str ''data: null'')) (field_prefix no_options)
        \<and> payload_of (str ''data: null'') no_options = str ''null''"
    by code_simp
  have l2: "trim (str ''data: '') \<noteq> [] \<and> \<not> startsWith (trim (str ''data: '')) (str '':'')
        \<and> startsWith (trim (str ''data: '')) (field_prefix no_options)
        \<and> payload_of (str ''data: '') no_options = [] \<and> parseJson no_options \<noteq> Some False"
    by code_simp
  have "safeJsonParse JSON_parse 100 (str ''null'') DEFAULT_MAX_JSON_SIZE DEFAULT_MAX_JSON_DEPTH = JNull"
    using C10_null_and_empty_payload[of JSON_parse 100 DEFAULT_MAX_JSON_SIZE DEFAULT_MAX_JSON_DEPTH "[]" no_options] p
    by blast
  moreover have "parseSSELine JSON_parse 100 (str ''data: null'') no_options = JString (str ''null'')"
    using C10_null_and_empty_payload[of JSON_parse 100 0 0 "str ''data: null''" no_options] p l1
    by blast
  moreover have "parseSSELine JSON_parse 100 (str ''data: '') no_options = JNull"
    using C10_null_and_empty_payload[of JSON_parse 100 0 0 "str ''data: ''" no_options] q l2
    by blast
  ultimately show ?thesis
    using p q l1 l2 by blast
qed

section \<open>The adapters\<close>

lemma Map_get_set: "Map_get (Map_set k v m) k = Some v"
  by (induction m) auto

lemma Map_set_fresh: "Map_set k v [] = [(k, v)]"
  by simp

lemma Map_set_head: "Map_set k v ((k, w) # m) = (k, v) # m"
  by simp

lemma Map_get_delete: "Map_get (Map_delete k m) k = None"
  by (induction m) (auto simp: Map_delete_def)

lemma str_tool_calls_ne: "str ''tool_calls'' \<noteq> []"
  by (simp add: str_def)

lemma openai_name_frame:
  "name \<noteq> [] \<Longrightarrow>
     openai_adapter m (name_frame index call_id name arguments) =
       (Some (ToolStart name arguments),
        Map_set (case index of None \<Rightarrow> 0 | Some i \<Rightarrow> i)
          \<lparr>tcs_id = (case call_id of None \<Rightarrow> str ''tool_'' @ dec_int (case index of None \<Rightarrow> 0 | Some i \<Rightarrow> i)
                      | Some i \<Rightarrow> i),
           tcs_name = name,
           tcs_arguments = (case arguments of None \<Rightarrow> [] | Some a \<Rightarrow> a)\<rparr> m)"
  by (simp add: openai_adapter_def name_frame_def truthy_def ToolStart_def Let_def)

lemma openai_arguments_frame:
  "Map_get m (case index of None \<Rightarrow> 0 | Some i \<Rightarrow> i) = Some existing \<Longrightarrow>
     openai_adapter m (arguments_frame index fragment) =
       (None,
        Map_set (case index of None \<Rightarrow> 0 | Some i \<Rightarrow> i)
          (existing\<lparr>tcs_arguments := tcs_arguments existing @ fragment\<rparr>) m)"
proof (cases "fragment = []")
  case True
  assume g: "Map_get m (case index of None \<Rightarrow> 0 | Some i \<Rightarrow> i) = Some existing"
  have "Map_set k existing m = m" if "Map_get m k = Some existing" for k
    using that by (induction m) (auto split: if_splits)
  with g True show ?thesis
    by (simp add: openai_adapter_def arguments_frame_def truthy_def Let_def)
next
  case False
  assume "Map_get m (case index of None \<Rightarrow> 0 | Some i \<Rightarrow> i) = Some existing"
  with False show ?thesis
    by (simp add: openai_adapter_def arguments_frame_def truthy_def Let_def)
qed

lemma openai_finish_frame:
  "openai_adapter m finish_frame = finish_tool_calls m"
  by (simp add: openai_adapter_def finish_frame_def truthy_def Let_def)

text \<open>
  C4.  A fresh OpenAI adapter is fed a frame whose \<open>tool_calls[0]\<close> carries a
  non-empty \<open>function.name\<close>, two frames that carry only a \<open>function.arguments\<close>
  fragment for the same slot index, and a frame with \<open>finish_reason\<close>
  \<open>"tool_calls"\<close>.  The first call returns one ToolStart, the two fragment calls
  return no event, and the last call returns one ToolEnd whose output is the
  arguments of the first frame, if it carried any, followed by the two fragments in
  arrival order: the concatenation of the two fragments when the first frame
  carried the name only.
\<close>

theorem C4_openai_tool_call_sequence:
  "name \<noteq> [] \<longrightarrow>
     fst (run_adapter openai_adapter createOpenAIAdapter
            [name_frame index call_id name arguments,
             arguments_frame index fragment1,
             arguments_frame index fragment2,
             finish_frame])
       = [Some (ToolStart name arguments), None, None,
          Some (ToolEnd name ((case arguments of None \<Rightarrow> [] | Some a \<Rightarrow> a) @ fragment1 @ fragment2))]
     \<and> fst (run_adapter openai_adapter createOpenAIAdapter
            [name_frame index call_id name None,
             arguments_frame index fragment1,
             arguments_frame index fragment2,
             finish_frame])
       = [Some (ToolStart name None), None, None, Some (ToolEnd name (fragment1 @ fragment2))]"
proof
  assume name: "name \<noteq> []"
  define k where "k = (case index of None \<Rightarrow> (0::int) | Some i \<Rightarrow> i)"
  have seq: "fst (run_adapter openai_adapter createOpenAIAdapter
            [name_frame index call_id name args,
             arguments_frame index fragment1,
             arguments_frame index fragment2,
             finish_frame])
       = [Some (ToolStart name args), None, None,
          Some (ToolEnd name ((case args of None \<Rightarrow> [] | Some a \<Rightarrow> a) @ fragment1 @ fragment2))]"
    for args
  proof -
    define t0 where "t0 =
      \<lparr>tcs_id = (case call_id of None \<Rightarrow> str ''tool_'' @ dec_int k | Some i \<Rightarrow> i),
       tcs_name = name, tcs_arguments = (case args of None \<Rightarrow> [] | Some a \<Rightarrow> a)\<rparr>"
    define t1 where "t1 = t0\<lparr>tcs_arguments := tcs_arguments t0 @ fragment1\<rparr>"
    define t2 where "t2 = t1\<lparr>tcs_arguments := tcs_arguments t1 @ fragment2\<rparr>"
    have s1: "openai_adapter [] (name_frame index call_id name args)
                = (Some (ToolStart name args), [(k, t0)])"
      unfolding k_def t0_def
      using openai_name_frame[OF name, of "[]" index call_id args]
      by simp
    have s2: "openai_adapter [(k, t0)] (arguments_frame index fragment1) = (None, [(k, t1)])"
      using openai_arguments_frame[of "[(k, t0)]" index t0 fragment1]
      by (simp add: k_def t1_def)
    have s3: "openai_adapter [(k, t1)] (arguments_frame index fragment2) = (None, [(k, t2)])"
      using openai_arguments_frame[of "[(k, t1)]" index t1 fragment2]
      by (simp add: k_def t2_def)
    have s4: "openai_adapter [(k, t2)] finish_frame
                = (Some (ToolEnd name (tcs_arguments t2)), [(k, t2)])"
      by (simp add: openai_finish_frame finish_tool_calls_def ToolEnd_def t2_def t1_def t0_def)
    have out: "tcs_arguments t2 = (case args of None \<Rightarrow> [] | Some a \<Rightarrow> a) @ fragment1 @ fragment2"
      by (simp add: t2_def t1_def t0_def)
    show ?thesis
      by (simp add: createOpenAIAdapter_def s1 s2 s3 s4 out)
  qed
  from seq[of arguments] seq[of None]
  show "fst (run_adapter openai_adapter createOpenAIAdapter
            [name_frame index call_id name arguments,
             arguments_frame index fragment1,
             arguments_frame index fragment2,
             finish_frame])
       = [Some (ToolStart name arguments), None, None,
          Some (ToolEnd name ((case arguments of None \<Rightarrow> [] | Some a \<Rightarrow> a) @ fragment1 @ fragment2))]
     \<and> fst (run_adapter openai_adapter createOpenAIAdapter
            [name_frame index call_id name None,
             arguments_frame index fragment1,
             arguments_frame index fragment2,
             finish_frame])
       = [Some (ToolStart name None), None, None, Some (ToolEnd name (fragment1 @ fragment2))]"
    by simp
qed

theorem C4_openai_tool_call_sequence_witness:
  "str ''search'' \<noteq> []
   \<and> fst (run_adapter openai_adapter createOpenAIAdapter
            [name_frame (Some 0) (Some (str ''call_1'')) (str ''search'') None,
             arguments_frame (Some 0) (str ''{\"q\":''),
             arguments_frame (Some 0) (str ''\"x\"}''),
             finish_frame])
       = [Some (ToolStart (str ''search'') None), None, None,
          Some (ToolEnd (str ''search'') (str ''{\"q\":\"x\"}''))]"
proof -
  have n: "str ''search'' \<noteq> []" by (simp add: str_def)
  have c: "str ''{\"q\":'' @ str ''\"x\"}'' = str ''{\"q\":\"x\"}''" by (simp add: str_def)
  from C4_openai_tool_call_sequence[of "str ''search''" "Some 0" "Some (str ''call_1'')" None
      "str ''{\"q\":''" "str ''\"x\"}''"] n
  have "fst (run_adapter openai_adapter createOpenAIAdapter
            [name_frame (Some 0) (Some (str ''call_1'')) (str ''search'') None,
             arguments_frame (Some 0) (str ''{\"q\":''),
             arguments_frame (Some 0) (str ''\"x\"}''),
             finish_frame])
       = [Some (ToolStart (str ''search'') None), None, None,
          Some (ToolEnd (str ''search'') (str ''{\"q\":'' @ str ''\"x\"}''))]"
    by blast
  with n c show ?thesis by simp
qed

text \<open>
  C5 fails on the code.  After one tool call has started, every frame with
  \<open>finish_reason\<close> \<open>"tool_calls"\<close> returns the ToolEnd of the first slot and leaves the
  map as it is: a second finish frame returns the same ToolEnd again.  With two
  slots, the finish frame returns the ToolEnd of the first only, and both stay.
\<close>

theorem C5_finish_keeps_slots:
  "run_adapter openai_adapter createOpenAIAdapter
     [name_frame (Some 0) None (str ''search'') None, finish_frame, finish_frame]
   = ([Some (ToolStart (str ''search'') None),
       Some (ToolEnd (str ''search'') []),
       Some (ToolEnd (str ''search'') [])],
      [(0, \<lparr>tcs_id = str ''tool_0'', tcs_name = str ''search'', tcs_arguments = []\<rparr>)])
   \<and> run_adapter openai_adapter createOpenAIAdapter
     [name_frame (Some 0) None (str ''search'') None,
      name_frame (Some 1) None (str ''fetch'') None, finish_frame]
   = ([Some (ToolStart (str ''search'') None),
       Some (ToolStart (str ''fetch'') None),
       Some (ToolEnd (str ''search'') [])],
      [(0, \<lparr>tcs_id = str ''tool_0'', tcs_name = str ''search'', tcs_arguments = []\<rparr>),
       (1, \<lparr>tcs_id = str ''tool_1'', tcs_name = str ''fetch'', tcs_arguments = []\<rparr>)])"
proof -
  have n: "str ''search'' \<noteq> []" "str ''fetch'' \<noteq> []" by (simp_all add: str_def)
  have d: "dec_int 0 = str ''0''" "dec_int 1 = str ''1''"
    by (simp_all add: dec_int_def dec_nat.simps str_def)
  have t: "str ''tool_'' @ str ''0'' = str ''tool_0''" "str ''tool_'' @ str ''1'' = str ''tool_1''"
    by (simp_all add: str_def)
  show ?thesis
    by (simp add: createOpenAIAdapter_def openai_name_frame[OF n(1)] openai_name_frame[OF n(2)]
        openai_finish_frame finish_tool_calls_def ToolEnd_def d t)
qed

lemma anthropic_block_start:
  "anthropic_adapter m (block_start index block_id block_name) =
     (Some (ToolStart (case block_name of None \<Rightarrow> str ''unknown_tool'' | Some n \<Rightarrow> n) None),
      Map_set (case index of None \<Rightarrow> 0 | Some i \<Rightarrow> i)
        \<lparr>tus_id = (case block_id of None \<Rightarrow> str ''tool_'' @ dec_int (case index of None \<Rightarrow> 0 | Some i \<Rightarrow> i)
                    | Some i \<Rightarrow> i),
         tus_name = (case block_name of None \<Rightarrow> str ''unknown_tool'' | Some n \<Rightarrow> n),
         tus_input = []\<rparr> m)"
  by (simp add: anthropic_adapter_def block_start_def ToolStart_def event_of_type_def Let_def)

lemma anthropic_block_stop:
  "anthropic_adapter m (block_stop index) =
     (case Map_get m (case index of None \<Rightarrow> 0 | Some i \<Rightarrow> i) of
        None \<Rightarrow> (None, m)
      | Some toolUse \<Rightarrow>
          (Some (ToolEnd (tus_name toolUse) (tus_input toolUse)),
           Map_delete (case index of None \<Rightarrow> 0 | Some i \<Rightarrow> i) m))"
  by (simp add: anthropic_adapter_def block_stop_def ToolEnd_def Let_def split: option.splits)

text \<open>
  C6.  A fresh Anthropic adapter is fed a \<open>content_block_start\<close> with a \<open>tool_use\<close>
  content block at some index, then \<open>content_block_stop\<close> for the same index.  The
  first call returns one ToolStart, the second one ToolEnd whose output is the
  empty string, and the slot is then gone from the map: a second
  \<open>content_block_stop\<close> for the index returns no event.
\<close>

theorem C6_anthropic_start_stop:
  "run_adapter anthropic_adapter createAnthropicAdapter
     [block_start index block_id block_name, block_stop index]
   = ([Some (ToolStart (case block_name of None \<Rightarrow> str ''unknown_tool'' | Some n \<Rightarrow> n) None),
       Some (ToolEnd (case block_name of None \<Rightarrow> str ''unknown_tool'' | Some n \<Rightarrow> n) [])],
      [])
   \<and> Map_get (snd (run_adapter anthropic_adapter createAnthropicAdapter
                      [block_start index block_id block_name, block_stop index]))
        (case index of None \<Rightarrow> 0 | Some i \<Rightarrow> i) = None
   \<and> fst (run_adapter anthropic_adapter createAnthropicAdapter
            [block_start index block_id block_name, block_stop index, block_stop index])
     = [Some (ToolStart (case block_name of None \<Rightarrow> str ''unknown_tool'' | Some n \<Rightarrow> n) None),
        Some (ToolEnd (case block_name of None \<Rightarrow> str ''unknown_tool'' | Some n \<Rightarrow> n) []),
        None]"
  by (simp add: createAnthropicAdapter_def anthropic_block_start anthropic_block_stop Map_delete_def)

theorem C6_anthropic_start_stop_witness:
  "run_adapter anthropic_adapter createAnthropicAdapter
     [block_start (Some 1) None (Some (str ''search'')), block_stop (Some 1), block_stop (Some 1)]
   = ([Some (ToolStart (str ''search'') None), Some (ToolEnd (str ''search'') []), None], [])"
proof -
  from C6_anthropic_start_stop[of "Some 1" None "Some (str ''search'')"]
  have two: "run_adapter anthropic_adapter createAnthropicAdapter
               [block_start (Some 1) None (Some (str ''search'')), block_stop (Some 1)]
             = ([Some (ToolStart (str ''search'') None), Some (ToolEnd (str ''search'') [])], [])"
    and three: "fst (run_adapter anthropic_adapter createAnthropicAdapter
               [block_start (Some 1) None (Some (str ''search'')), block_stop (Some 1), block_stop (Some 1)])
             = [Some (ToolStart (str ''search'') None), Some (ToolEnd (str ''search'') []), None]"
    by simp_all
  have "snd (run_adapter anthropic_adapter createAnthropicAdapter
               [block_start (Some 1) None (Some (str ''search'')), block_stop (Some 1), block_stop (Some 1)])
        = []"
    by (simp add: createAnthropicAdapter_def anthropic_block_start anthropic_block_stop Map_delete_def)
  with three show ?thesis
    by (metis prod.collapse)
qed

section \<open>Adapter instances do not share state\<close>

lemma call_adapter_other: "a \<noteq> b \<Longrightarrow> heap (snd (call_adapter b f s)) a = heap s a"
  by (auto simp: call_adapter_def split: option.splits closure_state.splits frame.splits prod.splits)

lemma call_adapter_own:
  "heap s a = heap t a \<Longrightarrow>
     fst (call_adapter a f s) = fst (call_adapter a f t)
     \<and> heap (snd (call_adapter a f s)) a = heap (snd (call_adapter a f t)) a"
  by (auto simp: call_adapter_def split: option.splits closure_state.splits frame.splits prod.splits)

lemma run_calls_Cons:
  "fst (run_calls s (c # cs)) =
     (fst c, fst (call_adapter (fst c) (snd c) s))
       # fst (run_calls (snd (call_adapter (fst c) (snd c) s)) cs)"
  "snd (run_calls s (c # cs)) = snd (run_calls (snd (call_adapter (fst c) (snd c) s)) cs)"
  by (simp_all add: split_beta)

lemma run_calls_isolated:
  "heap s a = heap t a \<Longrightarrow>
     events_of a (fst (run_calls s cs)) = map snd (fst (run_calls t (calls_to a cs)))
     \<and> heap (snd (run_calls s cs)) a = heap (snd (run_calls t (calls_to a cs))) a"
proof (induction cs arbitrary: s t)
  case Nil
  then show ?case by (simp add: events_of_def calls_to_def)
next
  case (Cons c cs)
  obtain e s' where c1: "call_adapter (fst c) (snd c) s = (e, s')"
    by (cases "call_adapter (fst c) (snd c) s")
  show ?case
  proof (cases "fst c = a")
    case True
    obtain e2 t' where c2: "call_adapter (fst c) (snd c) t = (e2, t')"
      by (cases "call_adapter (fst c) (snd c) t")
    from call_adapter_own[OF Cons.prems, of "snd c"] True c1 c2
    have same: "e = e2" "heap s' a = heap t' a" by simp_all
    from Cons.IH[OF same(2)] True c1 c2 same(1)
    show ?thesis
      by (simp add: events_of_def calls_to_def run_calls_Cons del: run_calls.simps)
  next
    case False
    from call_adapter_other[of a "fst c" "snd c" s] False c1
    have "heap s' a = heap s a" by simp
    with Cons.prems have "heap s' a = heap t a" by simp
    from Cons.IH[OF this] False c1
    show ?thesis
      by (simp add: events_of_def calls_to_def run_calls_Cons del: run_calls.simps)
  qed
qed

text \<open>
  C9.  Two factory calls, of either provider, return two different instances, and
  creating the second leaves the first with its empty map.  In any sequence of
  calls that follows, whatever its interleaving, the events an instance returns
  and the map it ends with are those of the calls to that instance alone: calls to
  other instances change neither.
\<close>

theorem C9_adapter_instances_isolated:
  "create_adapter pa s0 = (A, s1) \<and> create_adapter pb s1 = (B, s2) \<longrightarrow>
     A \<noteq> B
     \<and> heap s2 A = heap s1 A
     \<and> events_of A (fst (run_calls s2 calls)) = map snd (fst (run_calls s2 (calls_to A calls)))
     \<and> heap (snd (run_calls s2 calls)) A = heap (snd (run_calls s2 (calls_to A calls))) A
     \<and> events_of B (fst (run_calls s2 calls)) = map snd (fst (run_calls s2 (calls_to B calls)))
     \<and> heap (snd (run_calls s2 calls)) B = heap (snd (run_calls s2 (calls_to B calls))) B"
proof
  assume c: "create_adapter pa s0 = (A, s1) \<and> create_adapter pb s1 = (B, s2)"
  then have a: "A = next_address s0" and n: "next_address s1 = Suc (next_address s0)"
    and b: "B = next_address s1" and h: "heap s2 = (heap s1)(B \<mapsto>
                 (case pb of
                    OpenAI \<Rightarrow> OpenAIMap createOpenAIAdapter
                  | Anthropic \<Rightarrow> AnthropicMap createAnthropicAdapter))"
    by (auto simp: create_adapter_def)
  from a b n have ne: "A \<noteq> B" by simp
  with h have keep: "heap s2 A = heap s1 A" by simp
  from ne keep run_calls_isolated[of s2 A s2 calls] run_calls_isolated[of s2 B s2 calls]
  show "A \<noteq> B
     \<and> heap s2 A = heap s1 A
     \<and> events_of A (fst (run_calls s2 calls)) = map snd (fst (run_calls s2 (calls_to A calls)))
     \<and> heap (snd (run_calls s2 calls)) A = heap (snd (run_calls s2 (calls_to A calls))) A
     \<and> events_of B (fst (run_calls s2 calls)) = map snd (fst (run_calls s2 (calls_to B calls)))
     \<and> heap (snd (run_calls s2 calls)) B = heap (snd (run_calls s2 (calls_to B calls))) B"
    by simp
qed

theorem C9_adapter_instances_isolated_witness:
  "create_adapter OpenAI \<lparr>heap = Map.empty, next_address = 0\<rparr>
     = (0, \<lparr>heap = [0 \<mapsto> OpenAIMap []], next_address = 1\<rparr>)
   \<and> create_adapter Anthropic \<lparr>heap = [0 \<mapsto> OpenAIMap []], next_address = 1\<rparr>
     = (1, \<lparr>heap = [0 \<mapsto> OpenAIMap [], 1 \<mapsto> AnthropicMap []], next_address = 2\<rparr>)
   \<and> events_of 0 (fst (run_calls \<lparr>heap = [0 \<mapsto> OpenAIMap [], 1 \<mapsto> AnthropicMap []], next_address = 2\<rparr>
        [(0, OpenAIFrame (name_frame None None (str ''search'') None)),
         (1, AnthropicFrame (block_start None None None)),
         (0, OpenAIFrame (arguments_frame None (str ''{}''))),
         (1, AnthropicFrame (block_stop None)),
         (0, OpenAIFrame finish_frame)]))
     = [Some (ToolStart (str ''search'') None), None, Some (ToolEnd (str ''search'') (str ''{}''))]"
proof -
  let ?s0 = "\<lparr>heap = Map.empty, next_address = 0\<rparr>"
  let ?s1 = "\<lparr>heap = [0 \<mapsto> OpenAIMap []], next_address = 1\<rparr>"
  let ?s2 = "\<lparr>heap = [0 \<mapsto> OpenAIMap [], 1 \<mapsto> AnthropicMap []], next_address = 2\<rparr>"
  let ?calls = "[(0, OpenAIFrame (name_frame None None (str ''search'') None)),
         (1, AnthropicFrame (block_start None None None)),
         (0, OpenAIFrame (arguments_frame None (str ''{}''))),
         (1, AnthropicFrame (block_stop None)),
         (0, OpenAIFrame finish_frame)]"
  have c1: "create_adapter OpenAI ?s0 = (0, ?s1)"
    by (simp add: create_adapter_def createOpenAIAdapter_def)
  have c2: "create_adapter Anthropic ?s1 = (1, ?s2)"
    by (simp add: create_adapter_def createAnthropicAdapter_def)
  have n: "str ''search'' \<noteq> []" by (simp add: str_def)
  have alone: "map snd (fst (run_calls ?s2 (calls_to 0 ?calls)))
     = [Some (ToolStart (str ''search'') None), None, Some (ToolEnd (str ''search'') (str ''{}''))]"
    using openai_arguments_frame[of "[(0, \<lparr>tcs_id = str ''tool_'' @ dec_int 0, tcs_name = str ''search'',
                tcs_arguments = []\<rparr>)]" None _ "str ''{}''"]
    by (simp add: calls_to_def call_adapter_def openai_name_frame[OF n]
        openai_finish_frame finish_tool_calls_def ToolEnd_def)
  from C9_adapter_instances_isolated[of OpenAI ?s0 0 ?s1 Anthropic 1 ?s2 ?calls] c1 c2
  have "events_of 0 (fst (run_calls ?s2 ?calls)) = map snd (fst (run_calls ?s2 (calls_to 0 ?calls)))"
    by blast
  with alone c1 c2 show ?thesis by simp
qed

section \<open>The stream driver and cancellation\<close>

text \<open>
  C7 fails on the code.  When the signal is aborted before the response arrives,
  \<open>fetch\<close> rejects with an \<open>AbortError\<close> outside the inner \<open>try\<close>, and the only call
  \<open>streamSSE\<close> makes is \<open>onError\<close> with that error.  An abort during a \<open>read()\<close> is
  caught by the inner \<open>catch\<close> and ends with \<open>onComplete\<close>.
\<close>

theorem C7_abort_before_response_calls_onError:
  "streamSSE parse stack adapter s0 (FetchRejected (AbortError message)) = [OnError (AbortError message)]
   \<and> streamSSE parse stack adapter s0
       (FetchResolved \<lparr>rs_ok = True, rs_status = 200, rs_text = body_text,
                       rs_body = Some (chunks, ReadRejected (AbortError message))\<rparr>)
     = map OnEvent (List.map_filter (\<lambda>e. e)
         (fst (run_adapter adapter s0
            (delivered (feed_all parse stack no_options createSSEParser chunks)))))
       @ [OnComplete]"
  by (simp add: streamSSE_def AbortError_def to_Error_def Let_def)

section \<open>Stopping a turn\<close>

lemma trim_Nil: "trim [] = []"
  by (simp add: trim_def)

lemma trimMessages_id:
  "maxMessages \<le> 0 \<or> int (length msgs) \<le> maxMessages \<Longrightarrow> trimMessages maxMessages msgs = msgs"
  by (simp add: trimMessages_def)

lemma sendMessage_messages:
  assumes "trim userInput \<noteq> []"
    and "maxMessages \<le> 0 \<or> int (length (messages st)) + 2 \<le> maxMessages"
  shows "messages (sendMessage maxMessages api id1 t1 id2 t2 userInput st) =
           messages st @ [new_user_message id1 t1 userInput (uploadedPdfs st),
                          new_assistant_message id2 t2]"
proof -
  let ?u = "new_user_message id1 t1 userInput (uploadedPdfs st)"
  let ?a = "new_assistant_message id2 t2"
  have 1: "trimMessages maxMessages (messages st @ [?u]) = messages st @ [?u]"
    using assms(2) by (intro trimMessages_id) auto
  have 2: "trimMessages maxMessages (messages st @ [?u, ?a]) = messages st @ [?u, ?a]"
    using assms(2) by (intro trimMessages_id) auto
  show ?thesis
    using assms(1) by (simp add: sendMessage_def Let_def 1 2)
qed

text \<open>
  C8, as the claim states it, fails: from the empty history, sending \<open>hi\<close> and
  stopping before any event leaves the user message in the history.
\<close>

theorem C8_user_message_remains_counterexample:
  "messages (stopStreaming
     (sendMessage 0 StreamConfig (str ''id1'') 1 (str ''id2'') 2 (str ''hi'') useChatMessages))
   = [new_user_message (str ''id1'') 1 (str ''hi'') []]
   \<and> messages (stopStreaming
     (sendMessage 0 StreamConfig (str ''id1'') 1 (str ''id2'') 2 (str ''hi'') useChatMessages))
   \<noteq> messages useChatMessages"
proof -
  have t: "trim (str ''hi'') \<noteq> []" by code_simp
  have "messages (sendMessage 0 StreamConfig (str ''id1'') 1 (str ''id2'') 2 (str ''hi'') useChatMessages)
      = [new_user_message (str ''id1'') 1 (str ''hi'') [], new_assistant_message (str ''id2'') 2]"
    using sendMessage_messages[OF t, of 0 useChatMessages] by (simp add: useChatMessages_def)
  moreover have "abortControllerRef
      (sendMessage 0 StreamConfig (str ''id1'') 1 (str ''id2'') 2 (str ''hi'') useChatMessages) = Some ()"
    using t by (simp add: sendMessage_def Let_def)
  ultimately show ?thesis
    by (simp add: stopStreaming_def new_assistant_message_def trim_Nil useChatMessages_def)
qed

text \<open>
  C8, amended.  When no trimming applies (the default: no limit on the history),
  starting a turn with a non-blank input and stopping it before any event has been
  delivered leaves the history as it was before the turn with the turn's user
  message appended: the empty assistant placeholder is removed, the user message
  stays.  The \<open>onComplete\<close> or \<open>onError\<close> call that ends the aborted request does not
  change the history again.
\<close>

theorem C8_stop_before_first_token:
  "trim userInput \<noteq> [] \<and> (maxMessages \<le> 0 \<or> int (length (messages st)) + 2 \<le> maxMessages) \<longrightarrow>
     messages (stopStreaming (sendMessage maxMessages api id1 t1 id2 t2 userInput st))
       = messages st @ [new_user_message id1 t1 userInput (uploadedPdfs st)]
     \<and> messages (onComplete_callback
          (stopStreaming (sendMessage maxMessages api id1 t1 id2 t2 userInput st)))
       = messages st @ [new_user_message id1 t1 userInput (uploadedPdfs st)]
     \<and> messages (onError_callback
          (stopStreaming (sendMessage maxMessages api id1 t1 id2 t2 userInput st)))
       = messages st @ [new_user_message id1 t1 userInput (uploadedPdfs st)]
     \<and> requestAborted (stopStreaming (sendMessage maxMessages api id1 t1 id2 t2 userInput st))
     \<and> \<not> isStreaming (stopStreaming (sendMessage maxMessages api id1 t1 id2 t2 userInput st))"
proof
  assume h: "trim userInput \<noteq> [] \<and> (maxMessages \<le> 0 \<or> int (length (messages st)) + 2 \<le> maxMessages)"
  let ?sent = "sendMessage maxMessages api id1 t1 id2 t2 userInput st"
  let ?u = "new_user_message id1 t1 userInput (uploadedPdfs st)"
  have m: "messages ?sent = messages st @ [?u, new_assistant_message id2 t2]"
    using h by (intro sendMessage_messages) auto
  have c: "abortControllerRef ?sent = Some ()"
    using h by (simp add: sendMessage_def Let_def)
  have stop: "stopStreaming ?sent =
      ?sent\<lparr>requestAborted := True, abortControllerRef := None, isStreaming := False,
            accumulatedContentRef := [], contentSegmentsRef := [], currentTextSegmentRef := [],
            messages := messages st @ [?u]\<rparr>"
    using m c by (simp add: stopStreaming_def new_assistant_message_def trim_Nil butlast_append)
  show "messages (stopStreaming ?sent) = messages st @ [?u]
     \<and> messages (onComplete_callback (stopStreaming ?sent)) = messages st @ [?u]
     \<and> messages (onError_callback (stopStreaming ?sent)) = messages st @ [?u]
     \<and> requestAborted (stopStreaming ?sent)
     \<and> \<not> isStreaming (stopStreaming ?sent)"
    by (simp add: stop onComplete_callback_def onError_callback_def finalizeAssistantMessage_def trim_Nil)
qed

theorem C8_stop_before_first_token_witness:
  "trim (str ''hi'') \<noteq> [] \<and> (0::int) \<le> 0
   \<and> messages (stopStreaming
       (sendMessage 0 StreamConfig (str ''id1'') 1 (str ''id2'') 2 (str ''hi'') useChatMessages))
     = [new_user_message (str ''id1'') 1 (str ''hi'') []]"
proof -
  have t: "trim (str ''hi'') \<noteq> []" by code_simp
  from C8_stop_before_first_token[of "str ''hi''" 0 useChatMessages StreamConfig
      "str ''id1''" 1 "str ''id2''" 2] t
  have "messages (stopStreaming
       (sendMessage 0 StreamConfig (str ''id1'') 1 (str ''id2'') 2 (str ''hi'') useChatMessages))
     = messages useChatMessages @ [new_user_message (str ''id1'') 1 (str ''hi'') (uploadedPdfs useChatMessages)]"
    by blast
  with t show ?thesis by (simp add: useChatMessages_def)
qed

end
